theory Spec2Isabelle
  imports Complex_Main "HOL-Library.Product_Lexorder"
begin

section \<open>Python values used by lens\_calibrate.py\<close>

text \<open>
  Exceptions are values: a function that may raise returns \<open>error + 'a\<close>, with
  \<open>Inl\<close> for the exception.  \<open>NanOrder\<close> is not a Python exception: it marks the one
  place where the model stops, the order that \<open>sorted\<close> gives to keys that are NaN.
\<close>

datatype error =
    IndexError
  | KeyError
  | ValueError
  | UnicodeDecodeError
  | CalledProcessError
  | FileNotFoundError
  | TypeError
  | NanOrder

text \<open>
  A \<open>dict\<close> keeps its keys in insertion order, so it is an association list; a Python
  dict never holds a key twice, which the theorems state as \<open>distinct (map fst d)\<close>
  where they need it.
\<close>

type_synonym 'v dict = "(string \<times> 'v) list"

definition keys :: "'v dict \<Rightarrow> string list" where
  "keys d = map fst d"

definition dict_get :: "'v dict \<Rightarrow> string \<Rightarrow> error + 'v" where
  "dict_get d k = (case map_of d k of None \<Rightarrow> Inl KeyError | Some v \<Rightarrow> Inr v)"

text \<open>\<open>xs[i]\<close> for a constant index \<open>i \<ge> 0\<close>: IndexError past the end.\<close>

definition list_get :: "'a list \<Rightarrow> nat \<Rightarrow> error + 'a" where
  "list_get xs i = (if i < length xs then Inr (xs ! i) else Inl IndexError)"

text \<open>Sequencing of steps that may raise: the first exception ends the run.\<close>

definition bind :: "error + 'a \<Rightarrow> ('a \<Rightarrow> error + 'b) \<Rightarrow> error + 'b" where
  "bind m f = (case m of Inl e \<Rightarrow> Inl e | Inr x \<Rightarrow> f x)"

fun collect :: "('a \<Rightarrow> error + 'b list) \<Rightarrow> 'a list \<Rightarrow> error + 'b list" where
  "collect f [] = Inr []"
| "collect f (x # xs) =
     (case f x of
        Inl e \<Rightarrow> Inl e
      | Inr ys \<Rightarrow> (case collect f xs of Inl e \<Rightarrow> Inl e | Inr zs \<Rightarrow> Inr (ys @ zs)))"

subsection \<open>Strings\<close>

text \<open>
  \<open>str.isspace\<close> on the characters below 128, \<open>str.strip()\<close> and \<open>str.split(sep)\<close>
  for a one-character separator.
\<close>

definition is_space :: "char \<Rightarrow> bool" where
  "is_space c = (c \<in> set [CHR 0x09, CHR 0x0A, CHR 0x0B, CHR 0x0C, CHR 0x0D,
                            CHR 0x1C, CHR 0x1D, CHR 0x1E, CHR 0x1F, CHR 0x20])"

definition strip :: "string \<Rightarrow> string" where
  "strip s = rev (dropWhile is_space (rev (dropWhile is_space s)))"

fun split :: "char \<Rightarrow> string \<Rightarrow> string list" where
  "split sep [] = [[]]"
| "split sep (c # cs) =
     (if c = sep then [] # split sep cs
      else (case split sep cs of
              [] \<Rightarrow> [[c]]
            | p # ps \<Rightarrow> (c # p) # ps))"

definition is_digit :: "char \<Rightarrow> bool" where
  "is_digit c = (48 \<le> (of_char c :: nat) \<and> (of_char c :: nat) \<le> 57)"

definition digit_val :: "char \<Rightarrow> nat" where
  "digit_val c = of_char c - 48"

text \<open>\<open>str.lower\<close> and \<open>str.upper\<close> of one character, on the letters below 128.\<close>

definition lower :: "char \<Rightarrow> char" where
  "lower c =
     (case map_of (zip ''ABCDEFGHIJKLMNOPQRSTUVWXYZ'' ''abcdefghijklmnopqrstuvwxyz'') c of
        None \<Rightarrow> c
      | Some l \<Rightarrow> l)"

definition upper :: "char \<Rightarrow> char" where
  "upper c =
     (case map_of (zip ''abcdefghijklmnopqrstuvwxyz'' ''ABCDEFGHIJKLMNOPQRSTUVWXYZ'') c of
        None \<Rightarrow> c
      | Some u \<Rightarrow> u)"

definition decimal :: "nat list \<Rightarrow> nat" where
  "decimal ds = foldl (\<lambda>a d. 10 * a + d) 0 ds"

subsection \<open>float(s)\<close>

text \<open>
  The built-in \<open>float\<close> applied to a string, for the grammar of the language
  reference: optional white space around an optionally signed \<open>inf\<close>, \<open>infinity\<close>,
  \<open>nan\<close> (in any case) or decimal numeral with optional fraction and exponent, where a
  single underscore may stand between two digits.  \<open>None\<close> is ValueError.  A finite
  double is modelled by the exact rational value of its numeral: rounding to 53 bits and
  overflow to infinity are not modelled.
\<close>

datatype pyfloat = Finite rat | PosInf | NegInf | NaN

fun digitpart_rest :: "string \<Rightarrow> nat list \<Rightarrow> nat list \<times> string" where
  "digitpart_rest [] acc = (acc, [])"
| "digitpart_rest (c # cs) acc =
     (if is_digit c then digitpart_rest cs (acc @ [digit_val c])
      else if c = CHR ''_'' then
        (case cs of
           [] \<Rightarrow> (acc, c # cs)
         | d # ds \<Rightarrow> if is_digit d then digitpart_rest ds (acc @ [digit_val d])
                     else (acc, c # cs))
      else (acc, c # cs))"

definition digitpart :: "string \<Rightarrow> (nat list \<times> string) option" where
  "digitpart s =
     (case s of
        [] \<Rightarrow> None
      | c # cs \<Rightarrow> if is_digit c then Some (digitpart_rest cs [digit_val c]) else None)"

definition number :: "string \<Rightarrow> (rat \<times> string) option" where
  "number s =
     (case digitpart s of
        Some (ds, r) \<Rightarrow>
          (case r of
             [] \<Rightarrow> Some (of_nat (decimal ds), r)
           | c # r' \<Rightarrow>
               if c = CHR ''.'' then
                 (case digitpart r' of
                    None \<Rightarrow> Some (of_nat (decimal ds), r')
                  | Some (fs, r'') \<Rightarrow>
                      Some (of_nat (decimal ds) + of_nat (decimal fs) / 10 ^ length fs, r''))
               else Some (of_nat (decimal ds), r))
      | None \<Rightarrow>
          (case s of
             [] \<Rightarrow> None
           | c # r' \<Rightarrow>
               if c = CHR ''.'' then
                 (case digitpart r' of
                    None \<Rightarrow> None
                  | Some (fs, r'') \<Rightarrow> Some (of_nat (decimal fs) / 10 ^ length fs, r''))
               else None))"

definition exponent :: "string \<Rightarrow> rat option" where
  "exponent s =
     (case s of
        [] \<Rightarrow> Some 1
      | c # r \<Rightarrow>
          if c = CHR ''e'' \<or> c = CHR ''E'' then
            (case r of
               [] \<Rightarrow> None
             | g # r' \<Rightarrow>
                 if g = CHR ''-'' then
                   (case digitpart r' of
                      Some (ds, []) \<Rightarrow> Some (1 / 10 ^ decimal ds)
                    | _ \<Rightarrow> None)
                 else
                   (case digitpart (if g = CHR ''+'' then r' else r) of
                      Some (ds, []) \<Rightarrow> Some (10 ^ decimal ds)
                    | _ \<Rightarrow> None))
          else None)"

definition absfloat :: "string \<Rightarrow> pyfloat option" where
  "absfloat s =
     (if map lower s = ''inf'' \<or> map lower s = ''infinity'' then Some PosInf
      else if map lower s = ''nan'' then Some NaN
      else (case number s of
              None \<Rightarrow> None
            | Some (q, r) \<Rightarrow>
                (case exponent r of None \<Rightarrow> None | Some e \<Rightarrow> Some (Finite (q * e)))))"

definition negate :: "pyfloat \<Rightarrow> pyfloat" where
  "negate x = (case x of Finite q \<Rightarrow> Finite (- q) | PosInf \<Rightarrow> NegInf
               | NegInf \<Rightarrow> PosInf | NaN \<Rightarrow> NaN)"

definition py_float :: "string \<Rightarrow> pyfloat option" where
  "py_float s =
     (case strip s of
        [] \<Rightarrow> None
      | c # r \<Rightarrow>
          if c = CHR ''-'' then map_option negate (absfloat r)
          else if c = CHR ''+'' then absfloat r
          else absfloat (c # r))"

subsection \<open>sorted(keys, key=float)\<close>

text \<open>
  \<open>sorted\<close> calls \<open>float\<close> on every key first (ValueError on the first key that is not
  a number) and then sorts stably by \<open><\<close> on the doubles.  The doubles other than NaN are
  linearly ordered, \<open>-inf\<close> below and \<open>inf\<close> above every finite one, and on them every
  stable sort gives the same list, which \<open>sort_key\<close> computes.  With a NaN key the result
  of Python's sort depends on its algorithm; the model stops there with \<open>NanOrder\<close>.
\<close>

definition rank :: "pyfloat \<Rightarrow> nat \<times> rat" where
  "rank x = (case x of NegInf \<Rightarrow> (0, 0) | Finite q \<Rightarrow> (1, q) | PosInf \<Rightarrow> (2, 0)
             | NaN \<Rightarrow> (3, 0))"

definition float_rank :: "string \<Rightarrow> nat \<times> rat" where
  "float_rank s = (case py_float s of None \<Rightarrow> (3, 0) | Some x \<Rightarrow> rank x)"

definition sorted_by_float :: "string list \<Rightarrow> error + string list" where
  "sorted_by_float ks =
     (if list_ex (\<lambda>k. py_float k = None) ks then Inl ValueError
      else if list_ex (\<lambda>k. py_float k = Some NaN) ks then Inl NanOrder
      else Inr (sort_key float_rank ks))"

section \<open>The Record Emitter: run\_generate\_xml\<close>

text \<open>
  The tree that the emitter reads, per lens: the options of the lens's section of
  lenses.conf, and the three maps that parse\_lenses\_config and the scans of the .tca and
  .vig files fill.  All keys and values are the strings of the configuration files.
\<close>

record lens =
  options :: "string dict"
  distortion :: "string dict"
  tca :: "string dict dict"
  vignetting :: "string dict dict dict dict"

text \<open>
  One constructor per \<open>f.write\<close> of an element in the calibration block; \<open>render\<close>
  gives the text written.
\<close>

datatype element =
    Distortion_poly3 string string
  | Distortion_ptlens string string string string
  | Tca_complex string string string string string
  | Tca_simple string string string
  | Vignetting_pa string string string string string string

definition attr :: "string \<Rightarrow> string \<Rightarrow> string" where
  "attr name v = name @ ''=\"'' @ v @ ''\"''"

fun render :: "element \<Rightarrow> string" where
  "render (Distortion_poly3 focal k1) =
     ''            <distortion model=\"poly3\" '' @ attr ''focal'' focal @ '' ''
       @ attr ''k1'' k1 @ '' />'' @ [CHR 0x0A]"
| "render (Distortion_ptlens focal a b c) =
     ''            <distortion model=\"ptlens\" '' @ attr ''focal'' focal @ '' ''
       @ attr ''a'' a @ '' '' @ attr ''b'' b @ '' '' @ attr ''c'' c @ '' />'' @ [CHR 0x0A]"
| "render (Tca_complex focal br vr bb vb) =
     ''            <tca model=\"poly3\" '' @ attr ''focal'' focal @ '' ''
       @ attr ''br'' br @ '' '' @ attr ''vr'' vr @ '' '' @ attr ''bb'' bb @ '' ''
       @ attr ''vb'' vb @ '' />'' @ [CHR 0x0A]"
| "render (Tca_simple focal vr vb) =
     ''            <tca model=\"poly3\" '' @ attr ''focal'' focal @ '' ''
       @ attr ''vr'' vr @ '' '' @ attr ''vb'' vb @ '' />'' @ [CHR 0x0A]"
| "render (Vignetting_pa focal aperture distance k1 k2 k3) =
     ''            <vignetting model=\"pa\" '' @ attr ''focal'' focal @ '' ''
       @ attr ''aperture'' aperture @ '' '' @ attr ''distance'' distance @ '' ''
       @ attr ''k1'' k1 @ '' '' @ attr ''k2'' k2 @ '' '' @ attr ''k3'' k3 @ '' />''
       @ [CHR 0x0A]"

text \<open>
  The body of the distortion loop.  \<open>data[1] is None\<close> reads \<open>data[1]\<close> first, which
  raises IndexError when the entry has one value.  A Python value that may be \<open>None\<close>
  is an option; the elements of \<open>data\<close> are the stripped strings, so none of them is.
\<close>

definition str_of :: "string option \<Rightarrow> string" where
  "str_of v = (case v of None \<Rightarrow> ''None'' | Some s \<Rightarrow> s)"

definition distortion_element :: "string \<Rightarrow> string \<Rightarrow> error + element list" where
  "distortion_element focal_length entry =
     (let data = map (\<lambda>s. Some (strip s)) (split (CHR '','') entry) in
      bind (list_get data 1) (\<lambda>d1.
        if d1 = None then
          bind (list_get data 0) (\<lambda>d0. Inr [Distortion_poly3 focal_length (str_of d0)])
        else
          bind (list_get data 0) (\<lambda>d0.
          bind (list_get data 1) (\<lambda>d1.
          bind (list_get data 2) (\<lambda>d2.
            Inr [Distortion_ptlens focal_length (str_of d0) (str_of d1) (str_of d2)])))))"

definition distortion_elements :: "lens \<Rightarrow> error + element list" where
  "distortion_elements l =
     bind (sorted_by_float (keys (distortion l))) (\<lambda>focal_lengths.
       collect (\<lambda>focal_length.
         bind (dict_get (distortion l) focal_length) (distortion_element focal_length))
         focal_lengths)"

text \<open>The TCA loop: the element written depends on the text of \<open>complex_tca\<close>.\<close>

definition tca_element :: "string \<Rightarrow> string dict \<Rightarrow> error + element list" where
  "tca_element focal_length data =
     bind (dict_get data ''complex_tca'') (\<lambda>complex_tca.
       if complex_tca = ''True'' then
         bind (dict_get data ''br'') (\<lambda>br.
         bind (dict_get data ''vr'') (\<lambda>vr.
         bind (dict_get data ''bb'') (\<lambda>bb.
         bind (dict_get data ''vb'') (\<lambda>vb.
           Inr [Tca_complex focal_length br vr bb vb]))))
       else
         bind (dict_get data ''vr'') (\<lambda>vr.
         bind (dict_get data ''vb'') (\<lambda>vb.
           Inr [Tca_simple focal_length vr vb])))"

definition tca_elements :: "lens \<Rightarrow> error + element list" where
  "tca_elements l =
     bind (sorted_by_float (keys (tca l))) (\<lambda>focal_lengths.
       collect (\<lambda>focal_length.
         bind (dict_get (tca l) focal_length) (tca_element focal_length))
         focal_lengths)"

text \<open>
  The vignetting loops, innermost first.  \<open>written_distances\<close> is the list
  \<open>_distances\<close>: the key \<open>inf\<close> becomes \<open>1000\<close>, and when the aperture's map has one
  key and the distance now reads \<open>1000\<close>, the two distances \<open>10\<close> and \<open>1000\<close>.
\<close>

definition written_distances :: "'v dict \<Rightarrow> string \<Rightarrow> string list" where
  "written_distances distances distance =
     (let distance' = (if distance = ''inf'' then ''1000'' else distance) in
      if length (keys distances) = 1 \<and> distance' = ''1000'' then [''10'', ''1000'']
      else [distance'])"

definition vignetting_distance ::
  "string \<Rightarrow> string \<Rightarrow> string dict dict \<Rightarrow> string \<Rightarrow> error + element list" where
  "vignetting_distance focal_length aperture distances distance =
     bind (dict_get distances distance) (\<lambda>data.
       collect (\<lambda>d.
         bind (dict_get data ''k1'') (\<lambda>k1.
         bind (dict_get data ''k2'') (\<lambda>k2.
         bind (dict_get data ''k3'') (\<lambda>k3.
           Inr [Vignetting_pa focal_length aperture d k1 k2 k3]))))
         (written_distances distances distance))"

definition vignetting_aperture ::
  "string \<Rightarrow> string dict dict dict \<Rightarrow> string \<Rightarrow> error + element list" where
  "vignetting_aperture focal_length apertures aperture =
     bind (dict_get apertures aperture) (\<lambda>distances.
     bind (sorted_by_float (keys distances)) (\<lambda>sorted_distances.
       collect (vignetting_distance focal_length aperture distances) sorted_distances))"

definition vignetting_focal ::
  "string dict dict dict dict \<Rightarrow> string \<Rightarrow> error + element list" where
  "vignetting_focal vig focal_length =
     bind (dict_get vig focal_length) (\<lambda>apertures.
     bind (sorted_by_float (keys apertures)) (\<lambda>sorted_apertures.
       collect (vignetting_aperture focal_length apertures) sorted_apertures))"

definition vignetting_elements :: "lens \<Rightarrow> error + element list" where
  "vignetting_elements l =
     bind (sorted_by_float (keys (vignetting l))) (\<lambda>focal_lengths.
       collect (vignetting_focal (vignetting l)) focal_lengths)"

text \<open>
  The calibration block of one lens, then the lens element and the document.  When a step
  raises, the real file keeps the lines written before it; the model returns the
  exception alone.
\<close>

definition calibration_elements :: "lens \<Rightarrow> error + element list" where
  "calibration_elements l =
     bind (distortion_elements l) (\<lambda>ds.
     bind (tca_elements l) (\<lambda>ts.
     bind (vignetting_elements l) (\<lambda>vs. Inr (ds @ ts @ vs))))"

definition tagged :: "string \<Rightarrow> string \<Rightarrow> string" where
  "tagged name v = ''        <'' @ name @ ''>'' @ v @ ''</'' @ name @ ''>'' @ [CHR 0x0A]"

definition lens_text :: "string \<Rightarrow> lens \<Rightarrow> error + string" where
  "lens_text lens_model l =
     bind (dict_get (options l) ''maker'') (\<lambda>maker.
     bind (dict_get (options l) ''mount'') (\<lambda>mount.
     bind (dict_get (options l) ''cropfactor'') (\<lambda>cropfactor.
     bind (dict_get (options l) ''type'') (\<lambda>type.
     bind (calibration_elements l) (\<lambda>els.
       Inr (''    <lens>'' @ [CHR 0x0A]
            @ tagged ''maker'' maker @ tagged ''model'' lens_model
            @ tagged ''mount'' mount @ tagged ''cropfactor'' cropfactor
            @ (if type \<noteq> ''normal'' then tagged ''type'' type else [])
            @ ''        <calibration>'' @ [CHR 0x0A]
            @ concat (map render els)
            @ ''        </calibration>'' @ [CHR 0x0A]
            @ ''    </lens>'' @ [CHR 0x0A]))))))"

definition generate_xml :: "lens dict \<Rightarrow> error + string" where
  "generate_xml lenses =
     bind (list_get (keys lenses) 0) (\<lambda>first_key.
     bind (collect (\<lambda>lens_model.
             bind (dict_get lenses lens_model) (lens_text lens_model)) (keys lenses))
       (\<lambda>body. Inr (''<lensdatabase>'' @ [CHR 0x0A] @ body
                       @ ''</lensdatabase>'' @ [CHR 0x0A])))"

text \<open>What an element says, for the statements below.\<close>

fun focal_of :: "element \<Rightarrow> string" where
  "focal_of (Distortion_poly3 f _) = f"
| "focal_of (Distortion_ptlens f _ _ _) = f"
| "focal_of (Tca_complex f _ _ _ _) = f"
| "focal_of (Tca_simple f _ _) = f"
| "focal_of (Vignetting_pa f _ _ _ _ _) = f"

fun is_distortion :: "element \<Rightarrow> bool" where
  "is_distortion (Distortion_poly3 _ _) = True"
| "is_distortion (Distortion_ptlens _ _ _ _) = True"
| "is_distortion _ = False"

fun is_tca :: "element \<Rightarrow> bool" where
  "is_tca (Tca_complex _ _ _ _ _) = True"
| "is_tca (Tca_simple _ _ _) = True"
| "is_tca _ = False"

fun is_vignetting :: "element \<Rightarrow> bool" where
  "is_vignetting (Vignetting_pa _ _ _ _ _ _) = True"
| "is_vignetting _ = False"

fun aperture_of :: "element \<Rightarrow> string" where
  "aperture_of (Vignetting_pa _ a _ _ _ _) = a"
| "aperture_of _ = []"

fun distance_of :: "element \<Rightarrow> string" where
  "distance_of (Vignetting_pa _ _ d _ _ _) = d"
| "distance_of _ = []"

text \<open>
  A Python dict holds no key twice: \<open>unique_keys\<close> says so of a map and of the maps
  that are its values, here the focal lengths and the apertures of each focal length.
\<close>

definition unique_keys :: "'v dict dict \<Rightarrow> bool" where
  "unique_keys d = (distinct (keys d) \<and> list_all (\<lambda>kv. distinct (keys (snd kv))) d)"

text \<open>Trees for the examples below.\<close>

definition mixed_order_lens :: lens where
  "mixed_order_lens =
     \<lparr>options = [],
      distortion = [(''100.0'', ''0.0, 0.0, 0.0''), (''14.0'', ''0.0, 0.0, 0.0''),
                    (''7.0'', ''0.0, 0.0, 0.0'')],
      tca = [],
      vignetting =
        [(''14.0'', [(''8.0'', [(''inf'', [(''k1'', ''-0.1''), (''k2'', ''0.2''),
                                           (''k3'', ''0.3'')]),
                                (''0.5'', [(''k1'', ''-0.4''), (''k2'', ''0.5''),
                                           (''k3'', ''0.6'')])])])]\<rparr>"

definition single_infinity_lens :: lens where
  "single_infinity_lens =
     \<lparr>options = [],
      distortion = [],
      tca = [],
      vignetting =
        [(''14.0'', [(''8.0'', [(''inf'', [(''k1'', ''-0.1''), (''k2'', ''0.2''),
                                           (''k3'', ''0.3'')])])])]\<rparr>"

definition far_distance_lens :: lens where
  "far_distance_lens =
     \<lparr>options = [],
      distortion = [],
      tca = [],
      vignetting =
        [(''14.0'', [(''8.0'', [(''inf'', [(''k1'', ''-0.1''), (''k2'', ''0.2''),
                                           (''k3'', ''0.3'')]),
                                (''2000.0'', [(''k1'', ''-0.4''), (''k2'', ''0.5''),
                                              (''k3'', ''0.6'')])])])]\<rparr>"

section \<open>The Metadata Resolver: the lens model of image\_read\_exif\<close>

text \<open>
  The metadata of an image as pyexiv2 gives it: \<open>tag in data\<close> and, for a tag that is
  present, \<open>data[tag].value\<close> and \<open>data[tag].human_value\<close>, each a string or \<open>None\<close>.
\<close>

record exif_tag =
  tag_value :: "string option"
  human_value :: "string option"

type_synonym metadata = "string \<rightharpoonup> exif_tag"

definition has_exif_tag :: "metadata \<Rightarrow> string \<Rightarrow> bool" where
  "has_exif_tag data tag = (data tag \<noteq> None)"

definition value_at :: "metadata \<Rightarrow> string \<Rightarrow> string option" where
  "value_at data tag = (case data tag of None \<Rightarrow> None | Some t \<Rightarrow> tag_value t)"

definition human_value_at :: "metadata \<Rightarrow> string \<Rightarrow> string option" where
  "human_value_at data tag = (case data tag of None \<Rightarrow> None | Some t \<Rightarrow> human_value t)"

text \<open>
  The statements of image\_read\_exif that set \<open>lens_model\<close>, in their order: under
  the \<open>else\<close> of the standard field, five \<open>if\<close> statements in a row, each of which
  assigns \<open>lens_model\<close> again when its tag is present.
\<close>

definition lens_model_of :: "metadata \<Rightarrow> string" where
  "lens_model_of data =
     (let lens_model =
        (if has_exif_tag data ''Exif.Photo.LensModel''
         then value_at data ''Exif.Photo.LensModel''
         else
           (let lens_model = None;
                lens_model = (if has_exif_tag data ''Exif.NikonLd3.LensIDNumber''
                              then human_value_at data ''Exif.NikonLd3.LensIDNumber''
                              else lens_model);
                lens_model = (if has_exif_tag data ''Exif.Panasonic.LensType''
                              then value_at data ''Exif.Panasonic.LensType''
                              else lens_model);
                lens_model = (if has_exif_tag data ''Exif.Sony1.LensID''
                              then human_value_at data ''Exif.Sony1.LensID''
                              else lens_model);
                lens_model = (if has_exif_tag data ''Exif.Minolta.LensID''
                              then human_value_at data ''Exif.Minolta.LensID''
                              else lens_model);
                lens_model = (if has_exif_tag data ''Exif.OlympusEq.LensType''
                              then human_value_at data ''Exif.OlympusEq.LensType''
                              else lens_model)
            in lens_model))
      in (case lens_model of None \<Rightarrow> ''Standard'' | Some s \<Rightarrow> s))"

definition or_standard :: "string option \<Rightarrow> string" where
  "or_standard v = (case v of None \<Rightarrow> ''Standard'' | Some s \<Rightarrow> s)"

definition nikon_and_olympus :: metadata where
  "nikon_and_olympus =
     [''Exif.NikonLd3.LensIDNumber'' \<mapsto>
        \<lparr>tag_value = Some ''146'', human_value = Some ''AF-S Nikkor 50mm f/1.8G''\<rparr>,
      ''Exif.OlympusEq.LensType'' \<mapsto>
        \<lparr>tag_value = Some ''0 1 16'',
         human_value = Some ''Olympus Zuiko Digital 11-22mm F2.8-3.5''\<rparr>]"

section \<open>The Vignetting Analyzer: radial bins of calculate\_vignetting\<close>

text \<open>
  Radii and intensities are rationals: a double is a rational, and the model computes
  \<open>radius / maximal_radius * (number_of_bins - 1)\<close> exactly, without the rounding of the
  floating-point product.  \<open>py_round\<close> is the built-in \<open>round\<close> with one argument, which
  rounds to the nearest integer and a tie to the even one.
\<close>

definition py_round :: "rat \<Rightarrow> int" where
  "py_round q =
     (let f = \<lfloor>q\<rfloor>; d = q - of_int f in
      if d < 1 / 2 then f
      else if 1 / 2 < d then f + 1
      else if even f then f else f + 1)"

definition number_of_bins :: nat where
  "number_of_bins = 16"

definition maximal_radius :: rat where
  "maximal_radius = 1"

definition bin_index :: "rat \<Rightarrow> int" where
  "bin_index radius = py_round (radius / maximal_radius * (of_nat number_of_bins - 1))"

text \<open>
  \<open>bins[bin_index].append(intensity)\<close>: an index from \<open>-len(bins)\<close> up to \<open>-1\<close> counts
  from the end, any other index outside the list raises IndexError.
\<close>

definition append_at :: "'a list list \<Rightarrow> int \<Rightarrow> 'a \<Rightarrow> error + 'a list list" where
  "append_at bins i v =
     (let n = int (length bins); j = (if i < 0 then n + i else i) in
      if 0 \<le> j \<and> j < n then Inr (bins[nat j := bins ! nat j @ [v]])
      else Inl IndexError)"

fun fill_bins :: "(rat \<times> 'a) list \<Rightarrow> 'a list list \<Rightarrow> error + 'a list list" where
  "fill_bins [] bins = Inr bins"
| "fill_bins ((radius, intensity) # rest) bins =
     (case append_at bins (bin_index radius) intensity of
        Inl e \<Rightarrow> Inl e
      | Inr bins' \<Rightarrow> fill_bins rest bins')"

text \<open>
  \<open>np.median\<close> of a list: the middle element of the sorted list, the mean of the two
  middle elements when the length is even, and NaN (\<open>None\<close>) for the empty list.
\<close>

definition np_median :: "rat list \<Rightarrow> rat option" where
  "np_median xs =
     (let ys = sort xs; n = length ys in
      if n = 0 then None
      else if odd n then Some (ys ! (n div 2))
      else Some ((ys ! (n div 2 - 1) + ys ! (n div 2)) / 2))"

text \<open>The lists \<open>radii\<close> and \<open>intensities\<close> after the binning, as pairs.\<close>

definition binned :: "(rat \<times> rat) list \<Rightarrow> error + (rat \<times> rat option) list" where
  "binned samples =
     bind (fill_bins samples (replicate number_of_bins [])) (\<lambda>bins.
       Inr (zip (map (\<lambda>i. of_nat i / (of_nat number_of_bins - 1) * maximal_radius)
                   [0..<number_of_bins])
                (map np_median bins)))"

definition sony_only :: metadata where
  "sony_only =
     [''Exif.Sony1.LensID'' \<mapsto>
        \<lparr>tag_value = Some ''32790'', human_value = Some ''Sony E 18-200mm F3.5-6.3 OSS''\<rparr>]"

definition six_samples :: "(rat \<times> rat) list" where
  "six_samples = [(0, 5), (1, 7), (1 / 2, 3), (8 / 15, 4), (1 / 30, 8), (1 / 30, 10)]"

section \<open>Regular expressions of the re module\<close>

text \<open>
  The part of Python's regular expressions that the two patterns of the program use:
  single characters (a literal, a class \<open>[...]\<close> or \<open>[^...]\<close> given by its members,
  \<open>\d\<close>, \<open>\s\<close> and \<open>.\<close>), sequence, the greedy star and capturing groups; \<open>r+\<close> is \<open>r r*\<close>.
  \<open>\s\<close> is the white space of a bytes pattern and \<open>.\<close> matches all but the newline.
\<close>

datatype atom = Lit char | Cls string | Non string | Digit | Space | Dot

datatype regex =
    Atom atom
  | Seq regex regex
  | Star regex
  | Group nat regex

fun accepts :: "atom \<Rightarrow> char \<Rightarrow> bool" where
  "accepts (Lit c) x = (x = c)"
| "accepts (Cls cs) x = (x \<in> set cs)"
| "accepts (Non cs) x = (x \<notin> set cs)"
| "accepts Digit x = is_digit x"
| "accepts Space x = (x \<in> set [CHR 0x20, CHR 0x09, CHR 0x0A, CHR 0x0D, CHR 0x0C, CHR 0x0B])"
| "accepts Dot x = (x \<noteq> CHR 0x0A)"

text \<open>
  A state of the matcher is the text still to read and the groups captured so far, the
  latest capture of a group first.  \<open>matches r st\<close> lists the states in which a match of
  \<open>r\<close> from \<open>st\<close> can end, in the order in which the backtracking matcher of \<open>re\<close>
  tries them: a star first tries one more round, and the match without it last.  A round
  of a star that reads nothing is not repeated.
\<close>

type_synonym mstate = "string \<times> (nat \<times> string) list"

fun matches :: "regex \<Rightarrow> mstate \<Rightarrow> mstate list" where
  "matches (Atom a) st =
     (case fst st of
        [] \<Rightarrow> []
      | x # xs \<Rightarrow> if accepts a x then [(xs, snd st)] else [])"
| "matches (Seq r1 r2) st = concat (map (matches r2) (matches r1 st))"
| "matches (Star r) st =
     concat (map (\<lambda>st'. if length (fst st') < length (fst st) then matches (Star r) st'
                         else [])
               (matches r st)) @ [st]"
| "matches (Group n r) st =
     map (\<lambda>st'. (fst st', (n, take (length (fst st) - length (fst st')) (fst st)) # snd st'))
       (matches r st)"

text \<open>
  \<open>re.match(pattern, s)\<close>: the first way to match at the start of \<open>s\<close>, as the map from
  group numbers to captured texts, or \<open>None\<close>.
\<close>

definition re_match :: "regex \<Rightarrow> string \<Rightarrow> (nat \<rightharpoonup> string) option" where
  "re_match r s =
     (case matches r (s, []) of
        [] \<Rightarrow> None
      | st # _ \<Rightarrow> Some (map_of (snd st)))"

definition plus :: "regex \<Rightarrow> regex" where
  "plus r = Seq r (Star r)"

fun seqs :: "regex list \<Rightarrow> regex" where
  "seqs [] = Star (Atom (Cls []))"
| "seqs [r] = r"
| "seqs (r # rs) = Seq r (seqs rs)"

definition lits :: "string \<Rightarrow> regex" where
  "lits s = seqs (map (\<lambda>c. Atom (Lit c)) s)"

section \<open>The raster decoder: load\_pgm\<close>

text \<open>
  The header pattern of load\_pgm.  The pattern starts with \<open>^\<close> and is compiled without
  flags, so \<open>re.search\<close> can match it at the start of the buffer only, which is
  \<open>re_match\<close>.  Group 1 is the whole header, groups 2 to 4 are width, height and the
  maximal value.
\<close>

definition comment_line :: regex where
  "comment_line =
     seqs [Star (Atom Space), Atom (Lit (CHR ''#'')), Star (Atom Dot),
           Atom (Cls [CHR 0x0D, CHR 0x0A])]"

definition pgm_header :: regex where
  "pgm_header =
     Group 1 (seqs
       [lits ''P5'', Atom Space, Star comment_line,
        Group 2 (plus (Atom Digit)), Atom Space, Star comment_line,
        Group 3 (plus (Atom Digit)), Atom Space, Star comment_line,
        Group 4 (plus (Atom Digit)), Atom Space,
        Star (Seq comment_line (Atom Space))])"

text \<open>\<open>int(b)\<close> for a text of decimal digits, as the groups of \<open>\d+\<close> are.\<close>

definition int_of_digits :: "string \<Rightarrow> nat" where
  "int_of_digits s = decimal (map digit_val s)"

text \<open>
  What the \<open>try\<close> block of load\_pgm leaves: header, width, height and maximal value, or
  the ValueError raised for a buffer that the pattern does not match.
\<close>

definition header_fields :: "string \<Rightarrow> error + string \<times> nat \<times> nat \<times> nat" where
  "header_fields buf =
     (case re_match pgm_header buf of
        None \<Rightarrow> Inl ValueError
      | Some g \<Rightarrow>
          (case (g 1, g 2, g 3, g 4) of
             (Some header, Some width, Some height, Some maxval) \<Rightarrow>
               Inr (header, int_of_digits width, int_of_digits height, int_of_digits maxval)
           | _ \<Rightarrow> Inl ValueError))"

text \<open>
  A sample is an unsigned integer of one or two bytes, or the four bytes of a float32,
  kept as the number that its 32 bits spell (the value of the float is not modelled).
  All three are read big-endian.
\<close>

datatype sample = UInt8 nat | UInt16 nat | Float32 nat

definition big_endian :: "string \<Rightarrow> nat" where
  "big_endian bs = foldl (\<lambda>a b. 256 * a + of_char b) 0 bs"

text \<open>
  \<open>np.frombuffer(buf, dtype, count, offset)\<close> raises ValueError when the buffer holds
  fewer than \<open>count\<close> items after the offset; \<open>reshape((height, width))\<close> cuts the items
  into rows.
\<close>

definition frombuffer ::
  "string \<Rightarrow> nat \<Rightarrow> (nat \<Rightarrow> sample) \<Rightarrow> nat \<Rightarrow> nat \<Rightarrow> error + sample list" where
  "frombuffer buf itemsize dt count offset =
     (if length buf - offset < count * itemsize then Inl ValueError
      else Inr (map (\<lambda>k. dt (big_endian (take itemsize (drop (offset + k * itemsize) buf))))
                  [0..<count]))"

definition reshape :: "nat \<Rightarrow> nat \<Rightarrow> 'a list \<Rightarrow> 'a list list" where
  "reshape height width xs = map (\<lambda>y. take width (drop (y * width) xs)) [0..<height]"

definition load_pgm :: "string \<Rightarrow> error + nat \<times> nat \<times> sample list list" where
  "load_pgm buf =
     bind (header_fields buf) (\<lambda>(header, width, height, maxval).
       bind (if maxval = 255 then Inr (1, UInt8)
             else if maxval = 65535 then Inr (2, UInt16)
             else if maxval = 4294967295 then Inr (4, Float32)
             else Inl ValueError) (\<lambda>(itemsize, dt).
       bind (frombuffer buf itemsize dt (width * height) (length header)) (\<lambda>shape.
         Inr (width, height, reshape height width shape))))"

section \<open>The TCA extractor: the pattern of tca\_correct\<close>

text \<open>Groups 1 to 4 are the named groups \<open>br\<close>, \<open>vr\<close>, \<open>bb\<close> and \<open>vb\<close>.\<close>

definition tca_pattern :: regex where
  "tca_pattern =
     seqs [lits ''-r '', plus (Atom (Cls ''.0'')), Atom (Lit (CHR '':'')),
           Group 1 (plus (Atom (Cls ''-.0123456789''))), Atom (Lit (CHR '':'')),
           plus (Atom (Cls ''.0'')), Atom (Lit (CHR '':'')),
           Group 2 (plus (Atom (Cls ''-.0123456789''))),
           lits '' -b '', plus (Atom (Cls ''.0'')), Atom (Lit (CHR '':'')),
           Group 3 (plus (Atom (Cls ''-.0123456789''))), Atom (Lit (CHR '':'')),
           plus (Atom (Cls ''.0'')), Atom (Lit (CHR '':'')),
           Group 4 (plus (Atom (Cls ''-.0123456789'')))]"

text \<open>Two small rasters for the examples below.\<close>

definition pgm_two_bytes :: string where
  "pgm_two_bytes =
     ''P5'' @ [CHR 0x0A] @ ''# made by hand'' @ [CHR 0x0A] @ ''2 1'' @ [CHR 0x0A]
       @ ''65535'' @ [CHR 0x0A, CHR 0x01, CHR 0x02, CHR 0x03, CHR 0x04]"

definition pgm_maxval_100 :: string where
  "pgm_maxval_100 = ''P5'' @ [CHR 0x0A] @ ''1 1'' @ [CHR 0x0A] @ ''100'' @ [CHR 0x0A, CHR 0x07]"

section \<open>The jobs: files, external programs and messages\<close>

text \<open>
  The state that a job reads and changes: the regular files with their contents, the
  commands run as subprocesses, in their order, and the lines printed.  Directories are
  not in the model: the paths that the jobs test with \<open>os.path.exists\<close> are those of
  the files they write.
\<close>

type_synonym path = string

record world =
  files :: "path \<rightharpoonup> string"
  invoked :: "string list list"
  printed :: "string list"

text \<open>
  What the program does not compute itself is a parameter of the model.  Running a
  command either fails to start the program (\<open>OSError\<close>) or ends with a return code and
  the text that the program wrote, and may change the files.  The other fields stand for
  \<open>shutil.which\<close>, for pyexiv2 (the tags of an image and \<open>float(data[tag].value)\<close> of a
  numeric tag), for whether \<open>json.loads\<close> accepts a text, for the name that
  \<open>tempfile.TemporaryDirectory\<close> chooses, for \<open>str\<close> of a float, and for the texts
  that depend on floating-point computation and formatting: the gnuplot script of
  tca\_correct, and the files that calculate\_vignetting writes in their order
  (all points, bins, the .vig record, the gnuplot script; fewer when an exception ends
  the computation, which then comes with them).
\<close>

datatype outcome = Missing | Exit nat string

record exif_data =
  lens_model :: string
  focal_length :: rat
  aperture :: rat

record env =
  program :: "string list \<Rightarrow> (path \<rightharpoonup> string) \<Rightarrow> outcome \<times> (path \<rightharpoonup> string)"
  which :: "string \<Rightarrow> path option"
  metadata_of :: "path \<Rightarrow> metadata"
  number_at :: "path \<Rightarrow> string \<Rightarrow> rat"
  json_ok :: "string \<Rightarrow> bool"
  tmp_dir :: path
  str_float :: "rat \<Rightarrow> string"
  tca_plot_script :: "path \<Rightarrow> path \<Rightarrow> exif_data \<Rightarrow> string list \<Rightarrow> string"
  vignetting_texts ::
    "path \<Rightarrow> path \<Rightarrow> nat \<times> nat \<times> sample list list \<Rightarrow> exif_data \<Rightarrow> pyfloat
       \<Rightarrow> string list \<times> error option"

definition path_exists :: "world \<Rightarrow> path \<Rightarrow> bool" where
  "path_exists w p = (files w p \<noteq> None)"

definition say :: "string \<Rightarrow> world \<Rightarrow> world" where
  "say line w = w\<lparr>printed := printed w @ [line]\<rparr>"

definition write_file :: "path \<Rightarrow> string \<Rightarrow> world \<Rightarrow> world" where
  "write_file p text w = w\<lparr>files := (files w)(p \<mapsto> text)\<rparr>"

definition run :: "env \<Rightarrow> string list \<Rightarrow> world \<Rightarrow> outcome \<times> world" where
  "run e cmd w =
     (case program e cmd (files w) of
        (out, fs) \<Rightarrow> (out, w\<lparr>files := fs, invoked := invoked w @ [cmd]\<rparr>))"

subsection \<open>Paths\<close>

text \<open>\<open>os.path.basename\<close>, \<open>os.path.join\<close> of two parts and \<open>os.path.splitext\<close>.\<close>

definition basename :: "path \<Rightarrow> string" where
  "basename p = rev (takeWhile (\<lambda>c. c \<noteq> CHR ''/'') (rev p))"

definition join :: "path \<Rightarrow> path \<Rightarrow> path" where
  "join a b =
     (if b \<noteq> [] \<and> hd b = CHR ''/'' then b
      else if a = [] \<or> last a = CHR ''/'' then a @ b
      else a @ ''/'' @ b)"

definition splitext :: "path \<Rightarrow> path \<times> string" where
  "splitext p =
     (let name = basename p;
          after_dot = takeWhile (\<lambda>c. c \<noteq> CHR ''.'') (rev name);
          n = length after_dot + 1
      in if CHR ''.'' \<notin> set name then (p, [])
         else if list_all (\<lambda>c. c = CHR ''.'') (take (length name - n) name) then (p, [])
         else (take (length p - n) p, drop (length p - n) p))"

definition raw_file_extensions :: "string list" where
  "raw_file_extensions =
     [''.3FR'', ''.ARI'', ''.ARW'', ''.BAY'', ''.CRW'', ''.CR2'', ''.CAP'', ''.DCS'',
      ''.DCR'', ''.DNG'', ''.DRF'', ''.EIP'', ''.ERF'', ''.FFF'', ''.IIQ'', ''.K25'',
      ''.KDC'', ''.MEF'', ''.MOS'', ''.MRW'', ''.NEF'', ''.NRW'', ''.OBM'', ''.ORF'',
      ''.PEF'', ''.PTX'', ''.PXN'', ''.R3D'', ''.RAF'', ''.RAW'', ''.RWL'', ''.RW2'',
      ''.RWZ'', ''.SR2'', ''.SRF'', ''.SRW'', ''.X3F'', ''.JPG'', ''.JPEG'', ''.TIF'',
      ''.TIFF'']"

definition is_raw_file :: "string \<Rightarrow> bool" where
  "is_raw_file filename = (map upper (snd (splitext filename)) \<in> set raw_file_extensions)"

subsection \<open>configparser\<close>

text \<open>
  Setting a value checks its interpolation syntax: after every \<open>%%\<close> and every
  \<open>%(name)s\<close> is taken out, no \<open>%\<close> may be left, or ValueError is raised.
  \<open>config_text\<close> is what \<open>write\<close> gives for one section.
\<close>

fun without_percents :: "string \<Rightarrow> string" where
  "without_percents (a # b # cs) =
     (if a = CHR ''%'' \<and> b = CHR ''%'' then without_percents cs
      else a # without_percents (b # cs))"
| "without_percents cs = cs"

definition key_reference :: regex where
  "key_reference = seqs [lits ''%('', plus (Atom (Non '')'')), lits '')s'']"

function without_keys :: "string \<Rightarrow> string" where
  "without_keys [] = []"
| "without_keys (c # cs) =
     (case matches key_reference (c # cs, []) of
        [] \<Rightarrow> c # without_keys cs
      | st # _ \<Rightarrow> if length (fst st) < length (c # cs) then without_keys (fst st)
                   else c # without_keys cs)"
  by pat_completeness auto
termination
  by (relation "measure length") auto

definition interpolation_ok :: "string \<Rightarrow> bool" where
  "interpolation_ok v = (CHR ''%'' \<notin> set (without_keys (without_percents v)))"

fun replace_newlines :: "string \<Rightarrow> string" where
  "replace_newlines [] = []"
| "replace_newlines (c # cs) =
     (if c = CHR 0x0A then [CHR 0x0A, CHR 0x09] @ replace_newlines cs
      else c # replace_newlines cs)"

definition config_text :: "string \<Rightarrow> string dict \<Rightarrow> string" where
  "config_text section_name items =
     ''['' @ section_name @ '']'' @ [CHR 0x0A]
       @ concat (map (\<lambda>(k, v). k @ '' = '' @ replace_newlines v @ [CHR 0x0A]) items)
       @ [CHR 0x0A]"

definition config_section :: "string \<Rightarrow> string dict \<Rightarrow> error + string" where
  "config_section section_name items =
     (if list_all (\<lambda>(k, v). interpolation_ok v) items
      then Inr (config_text section_name items) else Inl ValueError)"

subsection \<open>Reading the metadata\<close>

text \<open>
  image\_read\_exif, as far as the jobs use it: the lens model, focal length and aperture
  of the image, and the run of exiftool for the crop factor.  \<open>subprocess.run\<close> raises
  FileNotFoundError when there is no exiftool; when exiftool ends with code 0,
  \<open>json.loads\<close> of its output raises a ValueError unless the output is JSON.  The
  messages that image\_read\_exif prints are left out of \<open>printed\<close>, and so are the
  fields (aspect ratio, crop factor, maker, mount) that no job below reads.
\<close>

definition image_read_exif :: "env \<Rightarrow> path \<Rightarrow> world \<Rightarrow> (error + exif_data) \<times> world" where
  "image_read_exif e filename w =
     (let data = metadata_of e filename;
          result =
            \<lparr>lens_model = lens_model_of data,
             focal_length = (if has_exif_tag data ''Exif.Photo.FocalLength''
                             then number_at e filename ''Exif.Photo.FocalLength'' else 0),
             aperture = (if has_exif_tag data ''Exif.Photo.FNumber''
                         then number_at e filename ''Exif.Photo.FNumber'' else 0)\<rparr>
      in case run e [''exiftool'', ''-T'', ''-scalefactor*'', filename] w of
           (Missing, w') \<Rightarrow> (Inl FileNotFoundError, w')
         | (Exit returncode stdout, w') \<Rightarrow>
             if returncode \<noteq> 0 then (Inr result, w')
             else if json_ok e stdout then (Inr result, w')
             else (Inl ValueError, w'))"

subsection \<open>Conversions\<close>

text \<open>
  The four conversion steps.  Each one runs its program only when its output does not
  exist yet.  \<open>check_call\<close> raises CalledProcessError for a return code other than 0
  (the darktable steps print the log first); a program that cannot be started is
  reported, and only convert\_raw\_for\_distortion then returns \<open>None\<close>.
\<close>

definition darktable_cli ::
  "env \<Rightarrow> string list \<Rightarrow> world \<Rightarrow> (error + bool) \<times> world" where
  "darktable_cli e cmd w =
     (case run e cmd w of
        (Missing, w') \<Rightarrow> (Inr False, say ''Could not find darktable-cli'' w')
      | (Exit returncode dt_log, w') \<Rightarrow>
          if returncode \<noteq> 0 then (Inl CalledProcessError, say dt_log w')
          else (Inr True, w'))"

definition convert_raw_for_distortion ::
  "env \<Rightarrow> path \<Rightarrow> path \<Rightarrow> path option \<Rightarrow> world \<Rightarrow> (error + path option) \<times> world" where
  "convert_raw_for_distortion e input_file sidecar_file output w =
     (let output_file = (case output of
                           None \<Rightarrow> fst (splitext input_file) @ ''.tif''
                         | Some f \<Rightarrow> f)
      in if \<not> path_exists w output_file then
           (case darktable_cli e
                   [''darktable-cli'', input_file, sidecar_file, output_file, ''--core'',
                    ''--configdir'', tmp_dir e,
                    ''--conf'', ''plugins/lighttable/export/iccintent=0'',
                    ''--conf'', ''plugins/lighttable/export/iccprofile=sRGB'',
                    ''--conf'', ''plugins/lighttable/export/style=none'',
                    ''--conf'', ''plugins/imageio/format/tiff/bpp=16'',
                    ''--conf'', ''plugins/imageio/format/tiff/compress=5'']
                   (say (''Converting '' @ input_file @ '' to '' @ output_file @ '' ...'') w) of
              (Inl err, w') \<Rightarrow> (Inl err, w')
            | (Inr started, w') \<Rightarrow> (Inr (if started then Some output_file else None), w'))
         else (Inr (Some output_file), w))"

definition convert_raw_for_tca ::
  "env \<Rightarrow> path \<Rightarrow> path \<Rightarrow> path option \<Rightarrow> world \<Rightarrow> (error + path) \<times> world" where
  "convert_raw_for_tca e input_file sidecar_file output w =
     (let output_file = (case output of
                           None \<Rightarrow> fst (splitext input_file) @ ''.ppm''
                         | Some f \<Rightarrow> f)
      in if \<not> path_exists w output_file then
           (case darktable_cli e
                   [''darktable-cli'', input_file, sidecar_file, output_file, ''--core'',
                    ''--configdir'', tmp_dir e,
                    ''--conf'', ''plugins/lighttable/export/iccprofile=image'',
                    ''--conf'', ''plugins/lighttable/export/style=none''] w of
              (Inl err, w') \<Rightarrow> (Inl err, w')
            | (Inr started, w') \<Rightarrow> (Inr output_file, w'))
         else (Inr output_file, w))"

definition convert_raw_for_vignetting ::
  "env \<Rightarrow> path \<Rightarrow> path \<Rightarrow> path option \<Rightarrow> world \<Rightarrow> (error + path) \<times> world" where
  "convert_raw_for_vignetting e input_file sidecar_file output w =
     (let output_file = (case output of
                           None \<Rightarrow> fst (splitext input_file) @ ''.ppm''
                         | Some f \<Rightarrow> f)
      in if \<not> path_exists w output_file then
           (case darktable_cli e
                   [''darktable-cli'', input_file, sidecar_file, output_file,
                    ''--width'', ''250'', ''--core'',
                    ''--configdir'', tmp_dir e,
                    ''--conf'', ''plugins/lighttable/export/iccprofile=image'',
                    ''--conf'', ''plugins/lighttable/export/style=none''] w of
              (Inl err, w') \<Rightarrow> (Inl err, w')
            | (Inr started, w') \<Rightarrow> (Inr output_file, w'))
         else (Inr output_file, w))"

definition convert_ppm_for_vignetting ::
  "env \<Rightarrow> path \<Rightarrow> world \<Rightarrow> (error + path) \<times> world" where
  "convert_ppm_for_vignetting e input_file w =
     (let output_file = fst (splitext input_file) @ ''.pgm''
      in if \<not> path_exists w output_file then
           (case run e [''convert'', ''-colorspace'', ''RGB'', input_file, ''-set'',
                        ''colorspace'', ''RGB'', output_file] w of
              (Missing, w') \<Rightarrow> (Inr output_file, say ''Could not find convert'' w')
            | (Exit returncode out, w') \<Rightarrow>
                if returncode \<noteq> 0 then (Inl CalledProcessError, w')
                else (Inr output_file, w'))
         else (Inr output_file, w))"

text \<open>
  plot\_pdf.  \<open>shutil.which\<close> gives \<open>None\<close> when there is no gnuplot, and the command
  \<open>[None, plot_file]\<close> then makes \<open>check_call\<close> raise TypeError before anything runs.
\<close>

definition plot_pdf :: "env \<Rightarrow> path \<Rightarrow> world \<Rightarrow> (error + bool) \<times> world" where
  "plot_pdf e plot_file w =
     (case which e ''gnuplot'' of
        None \<Rightarrow> (Inl TypeError, w)
      | Some gnuplot \<Rightarrow>
          (case run e [gnuplot, plot_file] w of
             (Missing, w') \<Rightarrow> (Inr False, say ''Could not find gnuplot'' w')
           | (Exit returncode out, w') \<Rightarrow>
               if returncode \<noteq> 0 then (Inl CalledProcessError, w') else (Inr True, w')))"

subsection \<open>The TCA job\<close>

text \<open>
  tca\_correct.  It returns \<open>None\<close> on every path that does not raise, so the result of
  the model is the exception or nothing.  The output of the tool is decoded as ASCII.
\<close>

definition is_ascii :: "string \<Rightarrow> bool" where
  "is_ascii s = list_all (\<lambda>c. (of_char c :: nat) < 128) s"

definition py_bool :: "bool \<Rightarrow> string" where
  "py_bool b = (if b then ''True'' else ''False'')"

text \<open>\<open>tca_data[name]\<close> as the text that \<open>str\<close> gives: a group that took no part is \<open>None\<close>.\<close>

definition group_text :: "(nat \<rightharpoonup> string) \<Rightarrow> nat \<Rightarrow> string" where
  "group_text tca_data n = (case tca_data n of None \<Rightarrow> ''None'' | Some s \<Rightarrow> s)"

definition tca_config :: "env \<Rightarrow> exif_data \<Rightarrow> bool \<Rightarrow> string \<Rightarrow> (nat \<rightharpoonup> string) \<Rightarrow> error + string" where
  "tca_config e exif complex_tca output tca_data =
     config_section (lens_model exif)
       [(''focal_length'', str_float e (focal_length exif)),
        (''complex_tca'', py_bool complex_tca),
        (''tca'', output),
        (''br'', group_text tca_data 1),
        (''vr'', group_text tca_data 2),
        (''bb'', group_text tca_data 3),
        (''vb'', group_text tca_data 4)]"

definition tca_correct ::
  "env \<Rightarrow> path \<Rightarrow> path \<Rightarrow> exif_data \<Rightarrow> bool \<Rightarrow> world \<Rightarrow> (error + unit) \<times> world" where
  "tca_correct e input_file original_file exif complex_tca w =
     (let basename = fst (splitext input_file);
          output_file = basename @ ''.tca'';
          gp_filename = basename @ ''.gp''
      in if \<not> path_exists w output_file then
           (case run e [''tca_correct'', ''-o'', (if complex_tca then ''bv'' else ''v''),
                        input_file]
                   (say (''Running TCA corrections for '' @ input_file @ '' ...'') w) of
              (Missing, w') \<Rightarrow> (Inr (), say ''Could not find tca_correct'' w')
            | (Exit returncode output, w') \<Rightarrow>
                if returncode \<noteq> 0 then (Inl CalledProcessError, w')
                else if \<not> is_ascii output then (Inl UnicodeDecodeError, w')
                else
                  (case re_match tca_pattern output of
                     None \<Rightarrow> (Inr (), say ''Could not find tca correction data'' w')
                   | Some tca_data \<Rightarrow>
                       (case tca_config e exif complex_tca output tca_data of
                          Inl err \<Rightarrow> (Inl err, w')
                        | Inr text \<Rightarrow>
                            if complex_tca then
                              (case plot_pdf e gp_filename
                                      (write_file gp_filename
                                         (tca_plot_script e input_file original_file exif
                                            (map (group_text tca_data) [1, 2, 3, 4]))
                                         (write_file output_file text w')) of
                                 (Inl err, w'') \<Rightarrow> (Inl err, w'')
                               | (Inr plotted, w'') \<Rightarrow> (Inr (), w''))
                            else (Inr (), write_file output_file text w'))))
         else (Inr (), w))"

definition create_tca_correction ::
  "env \<Rightarrow> path \<Rightarrow> path \<Rightarrow> string \<Rightarrow> path \<Rightarrow> bool \<Rightarrow> world \<Rightarrow> (error + bool) \<times> world" where
  "create_tca_correction e export_path path filename sidecar_file complex_tca w =
     (let input_file = join path filename in
      case image_read_exif e input_file w of
        (Inl err, w1) \<Rightarrow> (Inl err, w1)
      | (Inr exif, w1) \<Rightarrow>
          (case convert_raw_for_tca e input_file sidecar_file
                  (Some (join (join path ''exported'') (fst (splitext filename) @ ''.ppm'')))
                  (say (''Processing '' @ input_file @ '' ... '') w1) of
             (Inl err, w2) \<Rightarrow> (Inl err, w2)
           | (Inr output_file, w2) \<Rightarrow>
               (case tca_correct e output_file input_file exif complex_tca w2 of
                  (Inl err, w3) \<Rightarrow> (Inl err, w3)
                | (Inr none, w3) \<Rightarrow> (Inr True, w3))))"

subsection \<open>The distortion job\<close>

definition create_distortion_correction ::
  "env \<Rightarrow> path \<Rightarrow> path \<Rightarrow> string \<Rightarrow> path \<Rightarrow> world \<Rightarrow> (error + bool) \<times> world" where
  "create_distortion_correction e export_path path filename sidecar_file w =
     (case convert_raw_for_distortion e (join path filename) sidecar_file
             (Some (join (join path ''exported'') (fst (splitext filename) @ ''.tif''))) w of
        (Inl err, w') \<Rightarrow> (Inl err, w')
      | (Inr output_file, w') \<Rightarrow> (Inr True, w'))"

subsection \<open>The vignetting job\<close>

text \<open>
  calculate\_vignetting.  After the test for the .vig record it reads the raster, and
  writes its four files in their order; the texts are a parameter (see \<open>env\<close>).
\<close>

fun write_files :: "(path \<times> string) list \<Rightarrow> world \<Rightarrow> world" where
  "write_files [] w = w"
| "write_files ((p, text) # rest) w = write_files rest (write_file p text w)"

definition calculate_vignetting ::
  "env \<Rightarrow> path \<Rightarrow> path \<Rightarrow> exif_data \<Rightarrow> pyfloat \<Rightarrow> world \<Rightarrow> (error + unit) \<times> world" where
  "calculate_vignetting e input_file original_file exif distance w =
     (let basename = fst (splitext input_file);
          all_points_filename = basename @ ''.all_points.dat'';
          bins_filename = basename @ ''.bins.dat'';
          gp_filename = basename @ ''.gp'';
          vig_filename = basename @ ''.vig''
      in if path_exists w vig_filename then (Inr (), w)
         else
           (let w1 = say (''Generating vignetting data for '' @ input_file @ '' ... '') w in
            case files w1 input_file of
              None \<Rightarrow> (Inl FileNotFoundError, w1)
            | Some buf \<Rightarrow>
                (case load_pgm buf of
                   Inl err \<Rightarrow> (Inl err, w1)
                 | Inr raster \<Rightarrow>
                     (case vignetting_texts e input_file original_file raster exif distance of
                        (texts, raised) \<Rightarrow>
                          (let w2 = write_files
                                      (zip [all_points_filename, bins_filename, vig_filename,
                                            gp_filename] texts) w1
                           in case raised of
                                Some err \<Rightarrow> (Inl err, w2)
                              | None \<Rightarrow>
                                  (case plot_pdf e gp_filename w2 of
                                     (Inl err, w3) \<Rightarrow> (Inl err, w3)
                                   | (Inr plotted, w3) \<Rightarrow> (Inr (), w3)))))))"

definition create_vignetting_correction ::
  "env \<Rightarrow> path \<Rightarrow> path \<Rightarrow> string \<Rightarrow> path \<Rightarrow> pyfloat \<Rightarrow> world
     \<Rightarrow> (error + bool) \<times> world" where
  "create_vignetting_correction e export_path path filename sidecar_file distance w =
     (let input_file = join path filename in
      case image_read_exif e input_file w of
        (Inl err, w1) \<Rightarrow> (Inl err, w1)
      | (Inr exif, w1) \<Rightarrow>
          (case convert_raw_for_vignetting e input_file sidecar_file
                  (Some (join export_path (fst (splitext filename) @ ''.ppm'')))
                  (say (''Processing '' @ input_file @ '' ... '') w1) of
             (Inl err, w2) \<Rightarrow> (Inl err, w2)
           | (Inr output_file, w2) \<Rightarrow>
               (case convert_ppm_for_vignetting e output_file w2 of
                  (Inl err, w3) \<Rightarrow> (Inl err, w3)
                | (Inr pgm_file, w3) \<Rightarrow>
                    (case calculate_vignetting e pgm_file input_file exif distance w3 of
                       (Inl err, w4) \<Rightarrow> (Inl err, w4)
                     | (Inr none, w4) \<Rightarrow>
                         (case convert_raw_for_vignetting e input_file sidecar_file
                                 (Some (join export_path (fst (splitext filename) @ ''.jpg'')))
                                 w4 of
                            (Inl err, w5) \<Rightarrow> (Inl err, w5)
                          | (Inr preview, w5) \<Rightarrow> (Inr True, w5))))))"

subsection \<open>The jobs that run\_vignetting submits\<close>

text \<open>
  The two loops of run\_vignetting over the result of \<open>os.walk('vignetting')\<close>, a list of
  directories with their files.  A job is the directory, the file and the distance with
  which create\_vignetting\_correction is submitted.  \<open>float(d)\<close> raises ValueError
  for a name that is no number, and the bare \<open>except\<close> goes on to the next file.
\<close>

definition export_path :: path where
  "export_path = join ''vignetting'' ''exported''"

fun file_jobs :: "path \<Rightarrow> string list \<Rightarrow> (path \<times> string \<times> pyfloat) list" where
  "file_jobs dir [] = []"
| "file_jobs dir (filename # rest) =
     (if \<not> is_raw_file filename then file_jobs dir rest
      else if dir = export_path then file_jobs dir rest
      else if dir \<noteq> ''vignetting'' then
        (case py_float (basename dir) of
           None \<Rightarrow> file_jobs dir rest
         | Some distance \<Rightarrow> (dir, filename, distance) # file_jobs dir rest)
      else (dir, filename, PosInf) # file_jobs dir rest)"

fun vignetting_jobs :: "(path \<times> string list) list \<Rightarrow> (path \<times> string \<times> pyfloat) list" where
  "vignetting_jobs [] = []"
| "vignetting_jobs ((dir, names) # rest) = file_jobs dir names @ vignetting_jobs rest"


text \<open>The output line of the TCA tool in the example of the specification.\<close>

definition tca_example_line :: string where
  "tca_example_line = ''-r 0.0:-0.002:0.0:0.001 -b 0.0:0.003:0.0:-0.001''"

text \<open>
  An environment for the examples: exiftool prints 2.0, darktable-cli and convert succeed
  and write nothing, the TCA tool prints \<open>no data\<close>, and every other program prints the
  example line.
\<close>

definition example_env :: env where
  "example_env =
     \<lparr>program = (\<lambda>cmd fs.
        if cmd = [] then (Missing, fs)
        else if hd cmd = ''exiftool'' then (Exit 0 ''2.0'', fs)
        else if hd cmd = ''darktable-cli'' \<or> hd cmd = ''convert'' then (Exit 0 [], fs)
        else if hd cmd = ''tca_correct'' then (Exit 0 ''no data'', fs)
        else (Exit 0 tca_example_line, fs)),
      which = (\<lambda>name. None),
      metadata_of = (\<lambda>filename. Map.empty),
      number_at = (\<lambda>filename tag. 0),
      json_ok = (\<lambda>text. True),
      tmp_dir = ''/tmp/lenscal_x'',
      str_float = (\<lambda>x. ''0.0''),
      tca_plot_script = (\<lambda>input_file original_file exif values. []),
      vignetting_texts = (\<lambda>input_file original_file raster exif distance. ([], None))\<rparr>"

definition example_world :: world where
  "example_world =
     \<lparr>files = [''vignetting/exported/a.ppm'' \<mapsto> ''ppm'',
               ''vignetting/exported/a.pgm'' \<mapsto> ''pgm'',
               ''vignetting/exported/a.vig'' \<mapsto> ''vig'',
               ''vignetting/exported/a.jpg'' \<mapsto> ''jpg''],
      invoked = [],
      printed = []\<rparr>"

definition empty_world :: world where
  "empty_world = \<lparr>files = Map.empty, invoked = [], printed = []\<rparr>"

text \<open>Further inputs for the examples.\<close>

definition line_env :: env where
  "line_env = example_env\<lparr>program := (\<lambda>cmd fs. (Exit 0 tca_example_line, fs))\<rparr>"

definition vig_only_world :: world where
  "vig_only_world =
     \<lparr>files = [''vignetting/exported/a.vig'' \<mapsto> ''vig''], invoked = [], printed = []\<rparr>"

section \<open>Theorems\<close>

text \<open>The definitions that the simplifier unfolds to run the model on a concrete input.\<close>

lemmas float_defs = float_rank_def rank_def py_float_def strip_def is_space_def absfloat_def
  lower_def number_def digitpart_def is_digit_def digit_val_def decimal_def exponent_def

lemmas emit_defs = calibration_elements_def distortion_elements_def tca_elements_def
  vignetting_elements_def vignetting_focal_def vignetting_aperture_def vignetting_distance_def
  written_distances_def sorted_by_float_def keys_def bind_def dict_get_def Let_def
  distortion_element_def tca_element_def list_get_def str_of_def

text \<open>
  C1 (the code at the failing input).  A distortion entry with the single value \<open>0.0\<close>,
  as in \<open>distortion(7.0mm) = 0.0\<close>: the emitter raises IndexError at \<open>data[1]\<close> and
  writes no \<open>poly3\<close> element, while the three-valued entry \<open>0.0, 0.0, 0.0\<close> gives
  the \<open>ptlens\<close> element with a, b and c.
\<close>

theorem distortion_single_value_raises:
  "distortion_element ''7.0'' ''0.0'' = Inl IndexError
   \<and> distortion_element ''7.0'' ''0.0, 0.0, 0.0''
       = Inr [Distortion_ptlens ''7.0'' ''0.0'' ''0.0'' ''0.0'']"
  by (simp add: distortion_element_def bind_def list_get_def strip_def is_space_def str_of_def)

subsection \<open>The emitter: blocks of elements per key\<close>

lemma bind_Inr: "bind m f = Inr y \<longleftrightarrow> (\<exists>x. m = Inr x \<and> f x = Inr y)"
  by (cases m) (simp_all add: bind_def)

lemma dict_get_Inr: "dict_get d k = Inr v \<longleftrightarrow> map_of d k = Some v"
  by (simp add: dict_get_def split: option.splits)

lemma collect_Inr:
  "collect f xs = Inr ys \<Longrightarrow> \<exists>yss. list_all2 (\<lambda>x zs. f x = Inr zs) xs yss \<and> ys = concat yss"
proof (induction xs arbitrary: ys)
  case Nil
  then show ?case by simp
next
  case (Cons x xs)
  from Cons.prems obtain zs ws where fx: "f x = Inr zs" and c: "collect f xs = Inr ws"
    and ys: "ys = zs @ ws"
    by (auto split: sum.splits)
  from Cons.IH [OF c] obtain yss where "list_all2 (\<lambda>x zs. f x = Inr zs) xs yss" "ws = concat yss"
    by blast
  with fx ys have "list_all2 (\<lambda>x zs. f x = Inr zs) (x # xs) (zs # yss) \<and> ys = concat (zs # yss)"
    by simp
  then show ?case by blast
qed

lemma sorted_by_float_Inr:
  "sorted_by_float ks = Inr ks' \<Longrightarrow> ks' = sort_key float_rank ks"
  by (simp add: sorted_by_float_def split: if_splits)

lemma sorted_const: "(\<And>z. z \<in> set zs \<Longrightarrow> f z = c) \<Longrightarrow> sorted (map f zs)"
  by (induction zs) auto

lemma blocks_keys:
  "list_all2 Q xs yss \<Longrightarrow> (\<And>x zs z. Q x zs \<Longrightarrow> z \<in> set zs \<Longrightarrow> key z = x)
   \<Longrightarrow> z \<in> set (concat yss) \<Longrightarrow> key z \<in> set xs"
  by (induction xs yss rule: list_all2_induct) auto

lemma blocks_sorted:
  "list_all2 Q xs yss \<Longrightarrow> (\<And>x zs z. Q x zs \<Longrightarrow> z \<in> set zs \<Longrightarrow> key z = x)
   \<Longrightarrow> sorted (map r xs) \<Longrightarrow> sorted (map (\<lambda>z. r (key z)) (concat yss))"
proof (induction xs yss rule: list_all2_induct)
  case Nil
  then show ?case by simp
next
  case (Cons x xs zs yss)
  have tail: "\<And>z. z \<in> set (concat yss) \<Longrightarrow> key z \<in> set xs"
    using blocks_keys [OF Cons.hyps(2)] Cons.prems(1) by blast
  have head: "\<And>z. z \<in> set zs \<Longrightarrow> key z = x"
    using Cons.hyps(1) Cons.prems(1) by blast
  have "sorted (map (\<lambda>z. r (key z)) (concat yss))"
    using Cons.IH Cons.prems by simp
  moreover have "sorted (map (\<lambda>z. r (key z)) zs)"
    by (rule sorted_const [where c = "r x"]) (simp add: head)
  moreover have "\<And>a b. a \<in> set zs \<Longrightarrow> b \<in> set (concat yss) \<Longrightarrow> r (key a) \<le> r (key b)"
    using head tail Cons.prems(2) by auto
  ultimately show ?case
    by (simp add: sorted_append) blast
qed

lemma blocks_filter:
  assumes "list_all2 Q xs yss" and "distinct xs"
    and key: "\<And>x zs z. Q x zs \<Longrightarrow> z \<in> set zs \<Longrightarrow> key z = x"
    and "x \<in> set xs"
  shows "Q x (filter (\<lambda>z. key z = x) (concat yss))"
  using assms(1,2,4)
proof (induction xs yss rule: list_all2_induct)
  case Nil
  then show ?case by simp
next
  case (Cons x' xs zs yss)
  have tail: "\<And>z. z \<in> set (concat yss) \<Longrightarrow> key z \<in> set xs"
    using blocks_keys [OF Cons.hyps(2)] key by blast
  have head: "\<And>z. z \<in> set zs \<Longrightarrow> key z = x'"
    using Cons.hyps(1) key by blast
  have notin: "x' \<notin> set xs" and dist: "distinct xs"
    using Cons.prems(1) by simp_all
  show ?case
  proof (cases "x = x'")
    case True
    have a: "filter (\<lambda>z. key z = x) zs = zs"
      using head True by (simp add: filter_id_conv)
    have b: "filter (\<lambda>z. key z = x) (concat yss) = []"
      unfolding filter_empty_conv using tail notin True by blast
    show ?thesis using a b Cons.hyps(1) True by simp
  next
    case False
    have a: "filter (\<lambda>z. key z = x) zs = []"
      unfolding filter_empty_conv using head False by blast
    have "x \<in> set xs" using Cons.prems(2) False by simp
    then have "Q x (filter (\<lambda>z. key z = x) (concat yss))"
      using Cons.IH dist by blast
    then show ?thesis using a by simp
  qed
qed


lemma blocks_map:
  "list_all2 Q xs yss \<Longrightarrow> (\<And>x zs. Q x zs \<Longrightarrow> map g zs = h x)
   \<Longrightarrow> map g (concat yss) = concat (map h xs)"
  by (induction xs yss rule: list_all2_induct) auto

lemma blocks_all:
  "list_all2 Q xs yss \<Longrightarrow> (\<And>x zs z. Q x zs \<Longrightarrow> z \<in> set zs \<Longrightarrow> P z)
   \<Longrightarrow> z \<in> set (concat yss) \<Longrightarrow> P z"
  by (induction xs yss rule: list_all2_induct) auto

lemma distortion_element_shape:
  "distortion_element f entry = Inr zs \<Longrightarrow> z \<in> set zs \<Longrightarrow> is_distortion z \<and> focal_of z = f"
  by (auto simp: distortion_element_def bind_Inr Let_def split: if_splits)

lemma tca_element_shape:
  "tca_element f data = Inr zs \<Longrightarrow> z \<in> set zs \<Longrightarrow> is_tca z \<and> focal_of z = f"
  by (auto simp: tca_element_def bind_Inr split: if_splits)

lemma vignetting_distance_shape:
  assumes "vignetting_distance f a distances d = Inr zs"
  shows "\<exists>data k1 k2 k3. map_of distances d = Some data \<and> map_of data ''k1'' = Some k1
           \<and> map_of data ''k2'' = Some k2 \<and> map_of data ''k3'' = Some k3
           \<and> zs = map (\<lambda>w. Vignetting_pa f a w k1 k2 k3) (written_distances distances d)"
proof -
  from assms obtain data where data: "map_of distances d = Some data"
    and c: "collect (\<lambda>w.
         bind (dict_get data ''k1'') (\<lambda>k1.
         bind (dict_get data ''k2'') (\<lambda>k2.
         bind (dict_get data ''k3'') (\<lambda>k3.
           Inr [Vignetting_pa f a w k1 k2 k3]))))
         (written_distances distances d) = Inr zs"
    by (auto simp: vignetting_distance_def bind_Inr dict_get_Inr)
  have ne: "written_distances distances d \<noteq> []"
    by (simp add: written_distances_def Let_def)
  from collect_Inr [OF c] obtain yss where
    l: "list_all2 (\<lambda>w zs. bind (dict_get data ''k1'') (\<lambda>k1.
         bind (dict_get data ''k2'') (\<lambda>k2.
         bind (dict_get data ''k3'') (\<lambda>k3.
           Inr [Vignetting_pa f a w k1 k2 k3]))) = Inr zs) (written_distances distances d) yss"
    and zs: "zs = concat yss" by blast
  from ne l obtain w0 z0 where "bind (dict_get data ''k1'') (\<lambda>k1.
         bind (dict_get data ''k2'') (\<lambda>k2.
         bind (dict_get data ''k3'') (\<lambda>k3.
           Inr [Vignetting_pa f a w0 k1 k2 k3]))) = Inr z0"
    by (cases "written_distances distances d") (auto simp: list_all2_Cons1)
  then obtain k1 k2 k3 where k: "map_of data ''k1'' = Some k1" "map_of data ''k2'' = Some k2"
      "map_of data ''k3'' = Some k3"
    by (auto simp: bind_Inr dict_get_Inr)
  have "list_all2 (\<lambda>w zs. zs = [Vignetting_pa f a w k1 k2 k3]) (written_distances distances d) yss"
    using l k by (simp add: bind_def dict_get_def eq_commute)
  then have "concat yss = map (\<lambda>w. Vignetting_pa f a w k1 k2 k3) (written_distances distances d)"
    by (induction rule: list_all2_induct) auto
  with data k zs show ?thesis by blast
qed


lemma vignetting_distance_elems:
  "vignetting_distance f a distances d = Inr zs \<Longrightarrow> z \<in> set zs
   \<Longrightarrow> is_vignetting z \<and> focal_of z = f \<and> aperture_of z = a"
  by (drule vignetting_distance_shape) auto

lemma vignetting_distance_written:
  "vignetting_distance f a distances d = Inr zs
   \<Longrightarrow> map distance_of zs = written_distances distances d"
  by (drule vignetting_distance_shape) (auto simp: comp_def)

lemma vignetting_aperture_shape:
  assumes "vignetting_aperture f apertures a = Inr zs"
  shows "\<exists>distances yss. map_of apertures a = Some distances
           \<and> list_all2 (\<lambda>d ws. vignetting_distance f a distances d = Inr ws)
                (sort_key float_rank (keys distances)) yss
           \<and> zs = concat yss"
proof -
  from assms obtain distances ds where d: "map_of apertures a = Some distances"
    and s: "sorted_by_float (keys distances) = Inr ds"
    and c: "collect (vignetting_distance f a distances) ds = Inr zs"
    by (auto simp: vignetting_aperture_def bind_Inr dict_get_Inr)
  from sorted_by_float_Inr [OF s] collect_Inr [OF c] d show ?thesis by blast
qed

lemma vignetting_aperture_elems:
  assumes "vignetting_aperture f apertures a = Inr zs" and "z \<in> set zs"
  shows "is_vignetting z \<and> focal_of z = f \<and> aperture_of z = a"
proof -
  from vignetting_aperture_shape [OF assms(1)] obtain distances yss where
    l: "list_all2 (\<lambda>d ws. vignetting_distance f a distances d = Inr ws)
          (sort_key float_rank (keys distances)) yss" and zs: "zs = concat yss" by blast
  show ?thesis
    by (rule blocks_all [OF l, where P = "\<lambda>z. is_vignetting z \<and> focal_of z = f \<and> aperture_of z = a"])
       (use assms(2) zs vignetting_distance_elems in blast)+
qed

lemma vignetting_aperture_distances:
  assumes "vignetting_aperture f apertures a = Inr zs" and "map_of apertures a = Some distances"
  shows "map distance_of zs
         = concat (map (written_distances distances) (sort_key float_rank (keys distances)))"
proof -
  from vignetting_aperture_shape [OF assms(1)] assms(2) obtain yss where
    l: "list_all2 (\<lambda>d ws. vignetting_distance f a distances d = Inr ws)
          (sort_key float_rank (keys distances)) yss" and zs: "zs = concat yss" by auto
  show ?thesis unfolding zs
    by (rule blocks_map [OF l]) (rule vignetting_distance_written)
qed

lemma vignetting_focal_shape:
  assumes "vignetting_focal vig f = Inr zs"
  shows "\<exists>apertures yss. map_of vig f = Some apertures
           \<and> list_all2 (\<lambda>a ws. vignetting_aperture f apertures a = Inr ws)
                (sort_key float_rank (keys apertures)) yss
           \<and> zs = concat yss"
proof -
  from assms obtain apertures as where d: "map_of vig f = Some apertures"
    and s: "sorted_by_float (keys apertures) = Inr as"
    and c: "collect (vignetting_aperture f apertures) as = Inr zs"
    by (auto simp: vignetting_focal_def bind_Inr dict_get_Inr)
  from sorted_by_float_Inr [OF s] collect_Inr [OF c] d show ?thesis by blast
qed

lemma vignetting_focal_elems:
  assumes "vignetting_focal vig f = Inr zs" and "z \<in> set zs"
  shows "is_vignetting z \<and> focal_of z = f"
proof -
  from vignetting_focal_shape [OF assms(1)] obtain apertures yss where
    l: "list_all2 (\<lambda>a ws. vignetting_aperture f apertures a = Inr ws)
          (sort_key float_rank (keys apertures)) yss" and zs: "zs = concat yss" by blast
  show ?thesis
    by (rule blocks_all [OF l, where P = "\<lambda>z. is_vignetting z \<and> focal_of z = f"])
       (use assms(2) zs vignetting_aperture_elems in blast)+
qed

lemma vignetting_focal_sorted:
  assumes "vignetting_focal vig f = Inr zs"
  shows "sorted (map (\<lambda>z. float_rank (aperture_of z)) zs)"
proof -
  from vignetting_focal_shape [OF assms(1)] obtain apertures yss where
    l: "list_all2 (\<lambda>a ws. vignetting_aperture f apertures a = Inr ws)
          (sort_key float_rank (keys apertures)) yss" and zs: "zs = concat yss" by blast
  show ?thesis unfolding zs
    by (rule blocks_sorted [OF l]) (use vignetting_aperture_elems in blast, rule sorted_sort_key)
qed

lemma vignetting_focal_aperture:
  assumes "vignetting_focal vig f = Inr zs" and "map_of vig f = Some apertures"
    and "distinct (keys apertures)" and "a \<in> set (keys apertures)"
  shows "vignetting_aperture f apertures a = Inr (filter (\<lambda>z. aperture_of z = a) zs)"
proof -
  from vignetting_focal_shape [OF assms(1)] assms(2) obtain yss where
    l: "list_all2 (\<lambda>a ws. vignetting_aperture f apertures a = Inr ws)
          (sort_key float_rank (keys apertures)) yss" and zs: "zs = concat yss" by auto
  show ?thesis unfolding zs
    by (rule blocks_filter [OF l, where key = aperture_of])
       (use assms(3,4) vignetting_aperture_elems in auto)
qed


lemma keyed_collect_shape:
  assumes "bind (sorted_by_float (keys d)) (\<lambda>ks. collect g ks) = Inr zs"
  shows "\<exists>yss. list_all2 (\<lambda>k ws. g k = Inr ws) (sort_key float_rank (keys d)) yss
           \<and> zs = concat yss"
proof -
  from assms obtain ks where s: "sorted_by_float (keys d) = Inr ks" and c: "collect g ks = Inr zs"
    by (auto simp: bind_Inr)
  from sorted_by_float_Inr [OF s] collect_Inr [OF c] show ?thesis by blast
qed

lemma distortion_block:
  assumes "bind (dict_get (distortion l) k) (distortion_element k) = Inr zs" and "z \<in> set zs"
  shows "is_distortion z \<and> focal_of z = k"
proof -
  from assms(1) obtain v where "distortion_element k v = Inr zs"
    unfolding bind_Inr by blast
  from distortion_element_shape [OF this assms(2)] show ?thesis .
qed

lemma tca_block:
  assumes "bind (dict_get (tca l) k) (tca_element k) = Inr zs" and "z \<in> set zs"
  shows "is_tca z \<and> focal_of z = k"
proof -
  from assms(1) obtain v where "tca_element k v = Inr zs"
    unfolding bind_Inr by blast
  from tca_element_shape [OF this assms(2)] show ?thesis .
qed

lemma distortion_elements_elems:
  assumes "distortion_elements l = Inr zs" and "z \<in> set zs"
  shows "is_distortion z"
proof -
  from keyed_collect_shape [OF assms(1) [unfolded distortion_elements_def]] obtain yss where
    l: "list_all2 (\<lambda>k ws. bind (dict_get (distortion l) k) (distortion_element k) = Inr ws)
          (sort_key float_rank (keys (distortion l))) yss" and zs: "zs = concat yss" by blast
  have "z \<in> set (concat yss)" using assms(2) zs by simp
  from blocks_all [OF l _ this, where P = is_distortion] distortion_block
  show ?thesis by blast
qed

lemma distortion_elements_sorted:
  assumes "distortion_elements l = Inr zs"
  shows "sorted (map (\<lambda>z. float_rank (focal_of z)) zs)"
proof -
  from keyed_collect_shape [OF assms(1) [unfolded distortion_elements_def]] obtain yss where
    l: "list_all2 (\<lambda>k ws. bind (dict_get (distortion l) k) (distortion_element k) = Inr ws)
          (sort_key float_rank (keys (distortion l))) yss" and zs: "zs = concat yss" by blast
  have k: "\<And>x zs z. bind (dict_get (distortion l) x) (distortion_element x) = Inr zs
             \<Longrightarrow> z \<in> set zs \<Longrightarrow> focal_of z = x"
    using distortion_block by blast
  show ?thesis unfolding zs
    by (rule blocks_sorted [OF l k sorted_sort_key])
qed

lemma tca_elements_elems:
  assumes "tca_elements l = Inr zs" and "z \<in> set zs"
  shows "is_tca z"
proof -
  from keyed_collect_shape [OF assms(1) [unfolded tca_elements_def]] obtain yss where
    l: "list_all2 (\<lambda>k ws. bind (dict_get (tca l) k) (tca_element k) = Inr ws)
          (sort_key float_rank (keys (tca l))) yss" and zs: "zs = concat yss" by blast
  have "z \<in> set (concat yss)" using assms(2) zs by simp
  from blocks_all [OF l _ this, where P = is_tca] tca_block
  show ?thesis by blast
qed

lemma tca_elements_sorted:
  assumes "tca_elements l = Inr zs"
  shows "sorted (map (\<lambda>z. float_rank (focal_of z)) zs)"
proof -
  from keyed_collect_shape [OF assms(1) [unfolded tca_elements_def]] obtain yss where
    l: "list_all2 (\<lambda>k ws. bind (dict_get (tca l) k) (tca_element k) = Inr ws)
          (sort_key float_rank (keys (tca l))) yss" and zs: "zs = concat yss" by blast
  have k: "\<And>x zs z. bind (dict_get (tca l) x) (tca_element x) = Inr zs
             \<Longrightarrow> z \<in> set zs \<Longrightarrow> focal_of z = x"
    using tca_block by blast
  show ?thesis unfolding zs
    by (rule blocks_sorted [OF l k sorted_sort_key])
qed

lemma vignetting_elements_shape:
  assumes "vignetting_elements l = Inr zs"
  shows "\<exists>yss. list_all2 (\<lambda>k ws. vignetting_focal (vignetting l) k = Inr ws)
                  (sort_key float_rank (keys (vignetting l))) yss \<and> zs = concat yss"
  using keyed_collect_shape [OF assms(1) [unfolded vignetting_elements_def]] .

lemma vignetting_elements_elems:
  assumes "vignetting_elements l = Inr zs" and "z \<in> set zs"
  shows "is_vignetting z \<and> focal_of z \<in> set (keys (vignetting l))"
proof -
  from vignetting_elements_shape [OF assms(1)] obtain yss where
    l: "list_all2 (\<lambda>k ws. vignetting_focal (vignetting l) k = Inr ws)
          (sort_key float_rank (keys (vignetting l))) yss" and zs: "zs = concat yss" by blast
  have "is_vignetting z"
    by (rule blocks_all [OF l, where P = is_vignetting])
       (use assms(2) zs vignetting_focal_elems in blast)+
  moreover have "focal_of z \<in> set (sort_key float_rank (keys (vignetting l)))"
    by (rule blocks_keys [OF l, where key = focal_of])
       (use assms(2) zs vignetting_focal_elems in blast)+
  ultimately show ?thesis by simp
qed

lemma vignetting_elements_sorted:
  assumes "vignetting_elements l = Inr zs"
  shows "sorted (map (\<lambda>z. float_rank (focal_of z)) zs)"
proof -
  from vignetting_elements_shape [OF assms(1)] obtain yss where
    l: "list_all2 (\<lambda>k ws. vignetting_focal (vignetting l) k = Inr ws)
          (sort_key float_rank (keys (vignetting l))) yss" and zs: "zs = concat yss" by blast
  show ?thesis unfolding zs
    by (rule blocks_sorted [OF l]) (use vignetting_focal_elems in blast, rule sorted_sort_key)
qed

lemma vignetting_elements_focal:
  assumes "vignetting_elements l = Inr zs" and "distinct (keys (vignetting l))"
    and "f \<in> set (keys (vignetting l))"
  shows "vignetting_focal (vignetting l) f = Inr (filter (\<lambda>z. focal_of z = f) zs)"
proof -
  from vignetting_elements_shape [OF assms(1)] obtain yss where
    l: "list_all2 (\<lambda>k ws. vignetting_focal (vignetting l) k = Inr ws)
          (sort_key float_rank (keys (vignetting l))) yss" and zs: "zs = concat yss" by blast
  show ?thesis unfolding zs
    by (rule blocks_filter [OF l, where key = focal_of])
       (use assms(2,3) vignetting_focal_elems in auto)
qed

lemma kinds_disjoint:
  "is_distortion z \<Longrightarrow> \<not> is_tca z \<and> \<not> is_vignetting z"
  "is_tca z \<Longrightarrow> \<not> is_distortion z \<and> \<not> is_vignetting z"
  "is_vignetting z \<Longrightarrow> \<not> is_distortion z \<and> \<not> is_tca z"
  by (cases z; simp)+

lemma filter_all: "(\<And>z. z \<in> set zs \<Longrightarrow> P z) \<Longrightarrow> filter P zs = zs"
  by (simp add: filter_id_conv)

lemma filter_none: "(\<And>z. z \<in> set zs \<Longrightarrow> \<not> P z) \<Longrightarrow> filter P zs = []"
  by (simp add: filter_empty_conv)

lemma calibration_elements_parts:
  assumes "calibration_elements l = Inr els"
  shows "\<exists>ds ts vs. distortion_elements l = Inr ds \<and> tca_elements l = Inr ts
           \<and> vignetting_elements l = Inr vs
           \<and> filter is_distortion els = ds \<and> filter is_tca els = ts
           \<and> filter is_vignetting els = vs"
proof -
  from assms obtain ds ts vs where p: "distortion_elements l = Inr ds" "tca_elements l = Inr ts"
    "vignetting_elements l = Inr vs" and els: "els = ds @ ts @ vs"
    unfolding calibration_elements_def bind_Inr by blast
  have d: "\<And>z. z \<in> set ds \<Longrightarrow> is_distortion z" using distortion_elements_elems [OF p(1)] .
  have t: "\<And>z. z \<in> set ts \<Longrightarrow> is_tca z" using tca_elements_elems [OF p(2)] .
  have v: "\<And>z. z \<in> set vs \<Longrightarrow> is_vignetting z" using vignetting_elements_elems [OF p(3)] by blast
  have 1: "filter is_distortion ds = ds" by (rule filter_all) (rule d)
  have 2: "filter is_distortion ts = []" by (rule filter_none) (use t kinds_disjoint in blast)
  have 3: "filter is_distortion vs = []" by (rule filter_none) (use v kinds_disjoint in blast)
  have 4: "filter is_tca ds = []" by (rule filter_none) (use d kinds_disjoint in blast)
  have 5: "filter is_tca ts = ts" by (rule filter_all) (rule t)
  have 6: "filter is_tca vs = []" by (rule filter_none) (use v kinds_disjoint in blast)
  have 7: "filter is_vignetting ds = []" by (rule filter_none) (use d kinds_disjoint in blast)
  have 8: "filter is_vignetting ts = []" by (rule filter_none) (use t kinds_disjoint in blast)
  have 9: "filter is_vignetting vs = vs" by (rule filter_all) (rule v)
  from p els 1 2 3 4 5 6 7 8 9 show ?thesis by simp
qed

lemma unique_keys_inner:
  "unique_keys d \<Longrightarrow> map_of d k = Some v \<Longrightarrow> distinct (keys v)"
  by (auto simp: unique_keys_def list_all_iff dest!: map_of_SomeD)

lemma map_of_in_keys: "map_of d k = Some v \<Longrightarrow> k \<in> set (keys d)"
  by (auto simp: keys_def dest!: map_of_SomeD intro: rev_image_eqI)

lemma blocks_member:
  "list_all2 Q xs yss \<Longrightarrow> x \<in> set xs \<Longrightarrow> \<exists>zs\<in>set yss. Q x zs"
  by (induction xs yss rule: list_all2_induct) auto

lemma float_rank_literals:
  "float_rank ''10'' = (1, 10)" "float_rank ''1000'' = (1, 1000)" "float_rank ''inf'' = (2, 0)"
  by (simp_all add: float_defs)

lemma written_distances_no_inf: "''inf'' \<notin> set (written_distances distances d)"
  by (simp add: written_distances_def Let_def)

lemma written_distances_inf: "''1000'' \<in> set (written_distances distances ''inf'')"
  by (simp add: written_distances_def Let_def)

lemma written_distances_single:
  "d = ''inf'' \<or> d = ''1000'' \<Longrightarrow> written_distances [(d, data)] d = [''10'', ''1000'']"
  by (auto simp: written_distances_def Let_def keys_def)

lemma vignetting_block:
  assumes "calibration_elements l = Inr els" and "unique_keys (vignetting l)"
    and "map_of (vignetting l) f = Some apertures" and "map_of apertures a = Some distances"
  shows "vignetting_aperture f apertures a
         = Inr (filter (\<lambda>e. is_vignetting e \<and> focal_of e = f \<and> aperture_of e = a) els)"
proof -
  from calibration_elements_parts [OF assms(1)] obtain vs where
    vs: "vignetting_elements l = Inr vs" and f: "filter is_vignetting els = vs" by blast
  have dk: "distinct (keys (vignetting l))"
    using assms(2) unfolding unique_keys_def by (rule conjunct1)
  have "vignetting_focal (vignetting l) f = Inr (filter (\<lambda>z. focal_of z = f) vs)"
    by (rule vignetting_elements_focal [OF vs dk map_of_in_keys [OF assms(3)]])
  from vignetting_focal_aperture [OF this assms(3) unique_keys_inner [OF assms(2,3)]
      map_of_in_keys [OF assms(4)]]
  have "vignetting_aperture f apertures a
        = Inr (filter (\<lambda>z. aperture_of z = a) (filter (\<lambda>z. focal_of z = f) vs))" .
  moreover have "filter (\<lambda>z. aperture_of z = a) (filter (\<lambda>z. focal_of z = f) vs)
      = filter (\<lambda>e. is_vignetting e \<and> focal_of e = f \<and> aperture_of e = a) els"
    unfolding f [symmetric] by (simp add: conj_commute conj_left_commute)
  ultimately show ?thesis by simp
qed

lemma vignetting_no_inf:
  assumes "vignetting_elements l = Inr vs" and "z \<in> set vs"
  shows "distance_of z \<noteq> ''inf''"
proof -
  have d: "\<And>f a ds d ws z. vignetting_distance f a ds d = Inr ws \<Longrightarrow> z \<in> set ws
             \<Longrightarrow> distance_of z \<noteq> ''inf''"
  proof -
    fix f a ds d ws z
    assume "vignetting_distance f a ds d = Inr ws" and z: "z \<in> set ws"
    from vignetting_distance_written [OF this(1)] have "map distance_of ws = written_distances ds d" .
    then have "distance_of z \<in> set (written_distances ds d)" using z
      by (metis image_eqI list.set_map)
    with written_distances_no_inf show "distance_of z \<noteq> ''inf''" by metis
  qed
  have a: "\<And>f aps a ws z. vignetting_aperture f aps a = Inr ws \<Longrightarrow> z \<in> set ws
             \<Longrightarrow> distance_of z \<noteq> ''inf''"
  proof -
    fix f aps a ws z
    assume h: "vignetting_aperture f aps a = Inr ws" and z: "z \<in> set ws"
    from vignetting_aperture_shape [OF h] obtain distances yss where
      l: "list_all2 (\<lambda>d ws. vignetting_distance f a distances d = Inr ws)
            (sort_key float_rank (keys distances)) yss" and ws: "ws = concat yss" by blast
    have "z \<in> set (concat yss)" using z ws by simp
    from blocks_all [OF l _ this, where P = "\<lambda>z. distance_of z \<noteq> ''inf''"] d
    show "distance_of z \<noteq> ''inf''" by blast
  qed
  have f: "\<And>f ws z. vignetting_focal (vignetting l) f = Inr ws \<Longrightarrow> z \<in> set ws
             \<Longrightarrow> distance_of z \<noteq> ''inf''"
  proof -
    fix f ws z
    assume h: "vignetting_focal (vignetting l) f = Inr ws" and z: "z \<in> set ws"
    from vignetting_focal_shape [OF h] obtain apertures yss where
      l: "list_all2 (\<lambda>a ws. vignetting_aperture f apertures a = Inr ws)
            (sort_key float_rank (keys apertures)) yss" and ws: "ws = concat yss" by blast
    have "z \<in> set (concat yss)" using z ws by simp
    from blocks_all [OF l _ this, where P = "\<lambda>z. distance_of z \<noteq> ''inf''"] a
    show "distance_of z \<noteq> ''inf''" by blast
  qed
  from vignetting_elements_shape [OF assms(1)] obtain yss where
    l: "list_all2 (\<lambda>k ws. vignetting_focal (vignetting l) k = Inr ws)
          (sort_key float_rank (keys (vignetting l))) yss" and zs: "vs = concat yss" by blast
  have "z \<in> set (concat yss)" using assms(2) zs by simp
  from blocks_all [OF l _ this, where P = "\<lambda>z. distance_of z \<noteq> ''inf''"] f
  show ?thesis by blast
qed

lemma no_inf_written:
  assumes "calibration_elements l = Inr els" and "e \<in> set els"
  shows "distance_of e \<noteq> ''inf''"
proof (cases "is_vignetting e")
  case True
  from calibration_elements_parts [OF assms(1)] obtain vs where
    vs: "vignetting_elements l = Inr vs" and f: "filter is_vignetting els = vs" by blast
  have "e \<in> set vs" using True assms(2) f by auto
  from vignetting_no_inf [OF vs this] show ?thesis .
next
  case False
  then show ?thesis by (cases e) simp_all
qed

lemma single_distance_block:
  assumes "vignetting_aperture f apertures a = Inr zs"
    and "map_of apertures a = Some [(d, data)]" and "d = ''inf'' \<or> d = ''1000''"
  shows "\<exists>k1 k2 k3. map_of data ''k1'' = Some k1 \<and> map_of data ''k2'' = Some k2
           \<and> map_of data ''k3'' = Some k3
           \<and> zs = [Vignetting_pa f a ''10'' k1 k2 k3, Vignetting_pa f a ''1000'' k1 k2 k3]"
proof -
  from vignetting_aperture_shape [OF assms(1)] assms(2) obtain yss where
    l: "list_all2 (\<lambda>d' ws. vignetting_distance f a [(d, data)] d' = Inr ws)
          (sort_key float_rank (keys [(d, data)])) yss" and zs: "zs = concat yss" by auto
  have "sort_key float_rank (keys [(d, data)]) = [d]" by (simp add: keys_def)
  with l obtain ws where yss: "yss = [ws]" and w: "vignetting_distance f a [(d, data)] d = Inr ws"
    by (auto simp: list_all2_Cons1)
  have wd: "written_distances [(d, data)] d = [''10'', ''1000'']"
    by (rule written_distances_single [OF assms(3)])
  from vignetting_distance_shape [OF w]
  show ?thesis using zs yss wd by auto
qed

lemma inf_distance_block:
  assumes "vignetting_aperture f apertures a = Inr zs"
    and "map_of apertures a = Some distances" and "map_of distances ''inf'' = Some data"
  shows "\<exists>k1 k2 k3. map_of data ''k1'' = Some k1 \<and> map_of data ''k2'' = Some k2
           \<and> map_of data ''k3'' = Some k3 \<and> Vignetting_pa f a ''1000'' k1 k2 k3 \<in> set zs"
proof -
  from vignetting_aperture_shape [OF assms(1)] assms(2) obtain yss where
    l: "list_all2 (\<lambda>d' ws. vignetting_distance f a distances d' = Inr ws)
          (sort_key float_rank (keys distances)) yss" and zs: "zs = concat yss" by auto
  have "''inf'' \<in> set (sort_key float_rank (keys distances))"
    using map_of_in_keys [OF assms(3)] by simp
  from blocks_member [OF l this] obtain ws where ws: "ws \<in> set yss"
    and w: "vignetting_distance f a distances ''inf'' = Inr ws" by blast
  from vignetting_distance_shape [OF w] assms(3) obtain k1 k2 k3 where
    k: "map_of data ''k1'' = Some k1" "map_of data ''k2'' = Some k2" "map_of data ''k3'' = Some k3"
    and e: "ws = map (\<lambda>w. Vignetting_pa f a w k1 k2 k3) (written_distances distances ''inf'')"
    by auto
  have "Vignetting_pa f a ''1000'' k1 k2 k3 \<in> set ws"
    unfolding e using written_distances_inf [of distances] by (simp add: image_iff)
  with ws zs k show ?thesis by auto
qed

text \<open>
  C2.  For every focal length \<open>f\<close> and aperture \<open>a\<close> of the vignetting tree of a lens
  whose calibration block is written without an exception: no element carries the distance
  \<open>inf\<close>; the entry with the key \<open>inf\<close> is written with distance \<open>1000\<close> and its own
  k1, k2, k3; and when the aperture's map holds exactly one distance, which reads \<open>1000\<close>
  once written (the key \<open>inf\<close> or \<open>1000\<close>), the elements written for \<open>f\<close> and \<open>a\<close>
  are exactly two, with distance \<open>10\<close> and distance \<open>1000\<close> and the same k1, k2, k3.
  The code counts the distances (\<open>len(distances)\<close>) per aperture of a focal length.
\<close>

theorem infinite_distance_written_as_1000:
  assumes "calibration_elements l = Inr els" and "unique_keys (vignetting l)"
    and "map_of (vignetting l) f = Some apertures" and "map_of apertures a = Some distances"
  shows "(\<forall>e\<in>set els. distance_of e \<noteq> ''inf'')
       \<and> (\<forall>data. map_of distances ''inf'' = Some data \<longrightarrow>
            (\<exists>k1 k2 k3. map_of data ''k1'' = Some k1 \<and> map_of data ''k2'' = Some k2
               \<and> map_of data ''k3'' = Some k3
               \<and> Vignetting_pa f a ''1000'' k1 k2 k3 \<in> set els))
       \<and> (\<forall>d data. distances = [(d, data)] \<and> (d = ''inf'' \<or> d = ''1000'') \<longrightarrow>
            (\<exists>k1 k2 k3. map_of data ''k1'' = Some k1 \<and> map_of data ''k2'' = Some k2
               \<and> map_of data ''k3'' = Some k3
               \<and> filter (\<lambda>e. is_vignetting e \<and> focal_of e = f \<and> aperture_of e = a) els
                   = [Vignetting_pa f a ''10'' k1 k2 k3, Vignetting_pa f a ''1000'' k1 k2 k3]))"
proof (intro conjI allI impI ballI)
  fix e assume "e \<in> set els"
  with no_inf_written [OF assms(1)] show "distance_of e \<noteq> ''inf''" .
next
  note b = vignetting_block [OF assms]
  fix data assume "map_of distances ''inf'' = Some data"
  from inf_distance_block [OF b assms(4) this]
  show "\<exists>k1 k2 k3. map_of data ''k1'' = Some k1 \<and> map_of data ''k2'' = Some k2
               \<and> map_of data ''k3'' = Some k3
               \<and> Vignetting_pa f a ''1000'' k1 k2 k3 \<in> set els"
    by auto
next
  note b = vignetting_block [OF assms]
  fix d data assume h: "distances = [(d, data)] \<and> (d = ''inf'' \<or> d = ''1000'')"
  then have m: "map_of apertures a = Some [(d, data)]" and d: "d = ''inf'' \<or> d = ''1000''"
    using assms(4) by simp_all
  from single_distance_block [OF b m d]
  show "\<exists>k1 k2 k3. map_of data ''k1'' = Some k1 \<and> map_of data ''k2'' = Some k2
               \<and> map_of data ''k3'' = Some k3
               \<and> filter (\<lambda>e. is_vignetting e \<and> focal_of e = f \<and> aperture_of e = a) els
                   = [Vignetting_pa f a ''10'' k1 k2 k3, Vignetting_pa f a ''1000'' k1 k2 k3]"
    by blast
qed

theorem infinite_distance_written_as_1000_witness:
  "calibration_elements single_infinity_lens =
     Inr [Vignetting_pa ''14.0'' ''8.0'' ''10'' ''-0.1'' ''0.2'' ''0.3'',
          Vignetting_pa ''14.0'' ''8.0'' ''1000'' ''-0.1'' ''0.2'' ''0.3'']
   \<and> unique_keys (vignetting single_infinity_lens)
   \<and> filter (\<lambda>e. is_vignetting e \<and> focal_of e = ''14.0'' \<and> aperture_of e = ''8.0'')
        [Vignetting_pa ''14.0'' ''8.0'' ''10'' ''-0.1'' ''0.2'' ''0.3'',
         Vignetting_pa ''14.0'' ''8.0'' ''1000'' ''-0.1'' ''0.2'' ''0.3'']
      = [Vignetting_pa ''14.0'' ''8.0'' ''10'' ''-0.1'' ''0.2'' ''0.3'',
         Vignetting_pa ''14.0'' ''8.0'' ''1000'' ''-0.1'' ''0.2'' ''0.3'']"
proof -
  let ?data = "[(''k1'', ''-0.1''), (''k2'', ''0.2''), (''k3'', ''0.3'')]"
  let ?els = "[Vignetting_pa ''14.0'' ''8.0'' ''10'' ''-0.1'' ''0.2'' ''0.3'',
               Vignetting_pa ''14.0'' ''8.0'' ''1000'' ''-0.1'' ''0.2'' ''0.3'']"
  have h1: "calibration_elements single_infinity_lens = Inr ?els"
    by (simp add: single_infinity_lens_def emit_defs float_defs)
  have h2: "unique_keys (vignetting single_infinity_lens)"
    by (simp add: unique_keys_def single_infinity_lens_def keys_def)
  have h3: "map_of (vignetting single_infinity_lens) ''14.0''
              = Some [(''8.0'', [(''inf'', ?data)])]"
    by (simp add: single_infinity_lens_def)
  have h4: "map_of [(''8.0'', [(''inf'', ?data)])] ''8.0'' = Some [(''inf'', ?data)]"
    by simp
  from infinite_distance_written_as_1000 [OF h1 h2 h3 h4]
  obtain k1 k2 k3 where k: "map_of ?data ''k1'' = Some k1" "map_of ?data ''k2'' = Some k2"
      "map_of ?data ''k3'' = Some k3"
    and e: "filter (\<lambda>e. is_vignetting e \<and> focal_of e = ''14.0'' \<and> aperture_of e = ''8.0'') ?els
            = [Vignetting_pa ''14.0'' ''8.0'' ''10'' k1 k2 k3,
               Vignetting_pa ''14.0'' ''8.0'' ''1000'' k1 k2 k3]"
    by blast
  from k have "k1 = ''-0.1''" "k2 = ''0.2''" "k3 = ''0.3''" by simp_all
  with e h1 h2 show ?thesis by simp
qed

lemma written_distances_many:
  "length (keys distances) \<noteq> 1 \<Longrightarrow> written_distances distances d = [if d = ''inf'' then ''1000'' else d]"
  by (simp add: written_distances_def Let_def)

lemma written_sorted:
  assumes "list_all (\<lambda>d. d = ''inf'' \<or> float_rank d \<le> (1, 1000)) (keys distances)"
  shows "sorted (map float_rank
           (concat (map (written_distances distances) (sort_key float_rank (keys distances)))))"
proof (cases "length (keys distances) = 1")
  case True
  then obtain d where d: "keys distances = [d]"
    by (cases "keys distances") auto
  have "sorted (map float_rank (written_distances distances d))"
    using True by (simp add: written_distances_def Let_def float_rank_literals)
  then show ?thesis by (simp add: d)
next
  case False
  let ?ks = "sort_key float_rank (keys distances)"
  let ?w = "\<lambda>d. if d = ''inf'' then ''1000'' else d"
  have "written_distances distances = (\<lambda>d. [?w d])"
    by (rule ext) (rule written_distances_many [OF False])
  then have c: "concat (map (written_distances distances) ?ks) = map ?w ?ks"
    by simp
  have dom: "\<And>d. d \<in> set ?ks \<Longrightarrow> d = ''inf'' \<or> float_rank d \<le> (1, 1000)"
    using assms by (simp add: list_all_iff)
  have s: "sorted_wrt (\<lambda>x y. float_rank x \<le> float_rank y) ?ks"
    using sorted_sort_key [of float_rank "keys distances"] by (simp add: sorted_map)
  have "sorted_wrt (\<lambda>x y. float_rank (?w x) \<le> float_rank (?w y)) ?ks"
  proof (rule sorted_wrt_mono_rel [OF _ s])
    fix x y assume x: "x \<in> set ?ks" and y: "y \<in> set ?ks" and le: "float_rank x \<le> float_rank y"
    show "float_rank (?w x) \<le> float_rank (?w y)"
    proof (cases "y = ''inf''")
      case True
      then show ?thesis using dom [OF x] by (auto simp: float_rank_literals)
    next
      case yf: False
      show ?thesis
      proof (cases "x = ''inf''")
        case True
        then have "(2, 0) \<le> float_rank y" using le by (simp add: float_rank_literals)
        moreover have "float_rank y \<le> (1, 1000)" using dom [OF y] yf by simp
        ultimately have "((2::nat), (0::rat)) \<le> (1, 1000)" by (rule order_trans)
        then show ?thesis by simp
      next
        case False
        then show ?thesis using yf le by simp
      qed
    qed
  qed
  then show ?thesis unfolding c by (simp add: sorted_map comp_def)
qed

text \<open>
  C8 (as amended).  In a calibration block written without an exception, the distortion,
  the TCA and the vignetting elements each come in ascending numeric order of their focal
  length, and the vignetting elements of a focal length in ascending numeric order of their
  aperture (\<open>float_rank\<close> orders the keys as \<open>float\<close> does: the finite ones by value,
  \<open>inf\<close> above them).  The distances of an aperture are written in ascending numeric order
  of their keys in the tree, each as \<open>written_distances\<close> gives it, so with \<open>inf\<close>, the
  last key, written as \<open>1000\<close>; the distances as written ascend when every key is \<open>inf\<close>
  or at most 1000.
\<close>

theorem emission_order:
  assumes "calibration_elements l = Inr els" and "unique_keys (vignetting l)"
  shows "sorted (map (\<lambda>e. float_rank (focal_of e)) (filter is_distortion els))
       \<and> sorted (map (\<lambda>e. float_rank (focal_of e)) (filter is_tca els))
       \<and> sorted (map (\<lambda>e. float_rank (focal_of e)) (filter is_vignetting els))
       \<and> sorted (map (\<lambda>e. float_rank (aperture_of e))
                  (filter (\<lambda>e. is_vignetting e \<and> focal_of e = f) els))
       \<and> (map_of (vignetting l) f = Some apertures \<and> map_of apertures a = Some distances \<longrightarrow>
               map distance_of
                 (filter (\<lambda>e. is_vignetting e \<and> focal_of e = f \<and> aperture_of e = a) els)
               = concat (map (written_distances distances)
                           (sort_key float_rank (keys distances)))
               \<and> sorted (map float_rank (sort_key float_rank (keys distances)))
               \<and> (list_all (\<lambda>d. d = ''inf'' \<or> float_rank d \<le> (1, 1000)) (keys distances) \<longrightarrow>
                    sorted (map float_rank (map distance_of
                      (filter (\<lambda>e. is_vignetting e \<and> focal_of e = f \<and> aperture_of e = a)
                         els)))))"
proof -
  from calibration_elements_parts [OF assms(1)] obtain ds ts vs where
    p: "distortion_elements l = Inr ds" "tca_elements l = Inr ts" "vignetting_elements l = Inr vs"
    and f: "filter is_distortion els = ds" "filter is_tca els = ts" "filter is_vignetting els = vs"
    by blast
  have dk: "distinct (keys (vignetting l))"
    using assms(2) unfolding unique_keys_def by (rule conjunct1)
  have 1: "sorted (map (\<lambda>e. float_rank (focal_of e)) (filter is_distortion els))"
    unfolding f by (rule distortion_elements_sorted [OF p(1)])
  have 2: "sorted (map (\<lambda>e. float_rank (focal_of e)) (filter is_tca els))"
    unfolding f by (rule tca_elements_sorted [OF p(2)])
  have 3: "sorted (map (\<lambda>e. float_rank (focal_of e)) (filter is_vignetting els))"
    unfolding f by (rule vignetting_elements_sorted [OF p(3)])
  have 4: "sorted (map (\<lambda>e. float_rank (aperture_of e))
             (filter (\<lambda>e. is_vignetting e \<and> focal_of e = f) els))" for f
  proof -
    have e: "filter (\<lambda>e. is_vignetting e \<and> focal_of e = f) els = filter (\<lambda>z. focal_of z = f) vs"
      unfolding f(3) [symmetric] by (simp add: conj_commute)
    show ?thesis
    proof (cases "f \<in> set (keys (vignetting l))")
      case True
      from vignetting_focal_sorted [OF vignetting_elements_focal [OF p(3) dk True]]
      show ?thesis unfolding e .
    next
      case False
      have "filter (\<lambda>z. focal_of z = f) vs = []"
        by (rule filter_none) (use vignetting_elements_elems [OF p(3)] False in blast)
      then show ?thesis unfolding e by simp
    qed
  qed
  have 5: "map distance_of
             (filter (\<lambda>e. is_vignetting e \<and> focal_of e = f \<and> aperture_of e = a) els)
           = concat (map (written_distances distances) (sort_key float_rank (keys distances)))"
    if "map_of (vignetting l) f = Some apertures" "map_of apertures a = Some distances"
    for f a apertures distances
    by (rule vignetting_aperture_distances [OF vignetting_block [OF assms that] that(2)])
  have 6: "sorted (map float_rank (concat (map (written_distances distances)
             (sort_key float_rank (keys distances)))))"
    if "list_all (\<lambda>d. d = ''inf'' \<or> float_rank d \<le> (1, 1000)) (keys distances)"
    for distances :: "string dict dict"
    by (rule written_sorted [OF that])
  show ?thesis
    using 1 2 3 4 5 6 sorted_sort_key [of float_rank] by simp
qed

theorem emission_order_witness:
  "calibration_elements mixed_order_lens =
     Inr [Distortion_ptlens ''7.0'' ''0.0'' ''0.0'' ''0.0'',
          Distortion_ptlens ''14.0'' ''0.0'' ''0.0'' ''0.0'',
          Distortion_ptlens ''100.0'' ''0.0'' ''0.0'' ''0.0'',
          Vignetting_pa ''14.0'' ''8.0'' ''0.5'' ''-0.4'' ''0.5'' ''0.6'',
          Vignetting_pa ''14.0'' ''8.0'' ''1000'' ''-0.1'' ''0.2'' ''0.3'']
   \<and> unique_keys (vignetting mixed_order_lens)
   \<and> sorted (map (\<lambda>e. float_rank (focal_of e)) (filter is_distortion
        [Distortion_ptlens ''7.0'' ''0.0'' ''0.0'' ''0.0'',
          Distortion_ptlens ''14.0'' ''0.0'' ''0.0'' ''0.0'',
          Distortion_ptlens ''100.0'' ''0.0'' ''0.0'' ''0.0'',
          Vignetting_pa ''14.0'' ''8.0'' ''0.5'' ''-0.4'' ''0.5'' ''0.6'',
          Vignetting_pa ''14.0'' ''8.0'' ''1000'' ''-0.1'' ''0.2'' ''0.3'']))
   \<and> sorted (map float_rank (map distance_of
        (filter (\<lambda>e. is_vignetting e \<and> focal_of e = ''14.0'' \<and> aperture_of e = ''8.0'')
        [Distortion_ptlens ''7.0'' ''0.0'' ''0.0'' ''0.0'',
          Distortion_ptlens ''14.0'' ''0.0'' ''0.0'' ''0.0'',
          Distortion_ptlens ''100.0'' ''0.0'' ''0.0'' ''0.0'',
          Vignetting_pa ''14.0'' ''8.0'' ''0.5'' ''-0.4'' ''0.5'' ''0.6'',
          Vignetting_pa ''14.0'' ''8.0'' ''1000'' ''-0.1'' ''0.2'' ''0.3''])))"
proof -
  let ?els = "[Distortion_ptlens ''7.0'' ''0.0'' ''0.0'' ''0.0'',
          Distortion_ptlens ''14.0'' ''0.0'' ''0.0'' ''0.0'',
          Distortion_ptlens ''100.0'' ''0.0'' ''0.0'' ''0.0'',
          Vignetting_pa ''14.0'' ''8.0'' ''0.5'' ''-0.4'' ''0.5'' ''0.6'',
          Vignetting_pa ''14.0'' ''8.0'' ''1000'' ''-0.1'' ''0.2'' ''0.3'']"
  let ?ds = "[(''inf'', [(''k1'', ''-0.1''), (''k2'', ''0.2''), (''k3'', ''0.3'')]),
              (''0.5'', [(''k1'', ''-0.4''), (''k2'', ''0.5''), (''k3'', ''0.6'')])]"
  have h1: "calibration_elements mixed_order_lens = Inr ?els"
    by (simp add: mixed_order_lens_def emit_defs float_defs)
  have h2: "unique_keys (vignetting mixed_order_lens)"
    by (simp add: unique_keys_def mixed_order_lens_def keys_def)
  have m1: "map_of (vignetting mixed_order_lens) ''14.0'' = Some [(''8.0'', ?ds)]"
    by (simp add: mixed_order_lens_def)
  have m2: "map_of [(''8.0'', ?ds)] ''8.0'' = Some ?ds"
    by simp
  have ok: "list_all (\<lambda>d. d = ''inf'' \<or> float_rank d \<le> (1, 1000)) (keys ?ds)"
    by (simp add: keys_def float_defs)
  from emission_order [OF h1 h2, of "''14.0''" "[(''8.0'', ?ds)]" "''8.0''" ?ds] h1 h2 m1 m2 ok
  show ?thesis by blast
qed

text \<open>
  C8 as stated fails for the distances: with the keys \<open>2000.0\<close> and \<open>inf\<close> under one
  aperture, \<open>2000.0\<close> is written before \<open>1000\<close>.
\<close>

theorem written_distances_not_ascending:
  "calibration_elements far_distance_lens =
     Inr [Vignetting_pa ''14.0'' ''8.0'' ''2000.0'' ''-0.4'' ''0.5'' ''0.6'',
          Vignetting_pa ''14.0'' ''8.0'' ''1000'' ''-0.1'' ''0.2'' ''0.3'']
   \<and> float_rank ''2000.0'' = (1, 2000) \<and> float_rank ''1000'' = (1, 1000)
   \<and> \<not> sorted (map (\<lambda>e. float_rank (distance_of e))
          [Vignetting_pa ''14.0'' ''8.0'' ''2000.0'' ''-0.4'' ''0.5'' ''0.6'',
           Vignetting_pa ''14.0'' ''8.0'' ''1000'' ''-0.1'' ''0.2'' ''0.3''])"
proof -
  have a: "calibration_elements far_distance_lens =
     Inr [Vignetting_pa ''14.0'' ''8.0'' ''2000.0'' ''-0.4'' ''0.5'' ''0.6'',
          Vignetting_pa ''14.0'' ''8.0'' ''1000'' ''-0.1'' ''0.2'' ''0.3'']"
    by (simp add: far_distance_lens_def emit_defs float_defs)
  have b: "float_rank ''2000.0'' = (1, 2000)" "float_rank ''1000'' = (1, 1000)"
    by (simp_all add: float_defs)
  have c: "\<not> sorted (map (\<lambda>e. float_rank (distance_of e))
          [Vignetting_pa ''14.0'' ''8.0'' ''2000.0'' ''-0.4'' ''0.5'' ''0.6'',
           Vignetting_pa ''14.0'' ''8.0'' ''1000'' ''-0.1'' ''0.2'' ''0.3''])"
    by (simp add: b)
  from a b c show ?thesis by blast
qed

subsection \<open>The lens model\<close>

text \<open>
  C4 (as amended).  When the standard field \<open>Exif.Photo.LensModel\<close> is absent, the
  manufacturer fields are read in the order Nikon lens ID, Panasonic lens type, Sony lens
  ID, Minolta lens ID, Olympus lens type, and each one that is present replaces what an
  earlier one gave: the last field present in that order gives the lens model, so the
  Olympus lens type has the highest priority and the Nikon lens ID the lowest.  The result
  is \<open>Standard\<close> when none of them is present (or the one that decides holds \<open>None\<close>).
\<close>

theorem lens_model_last_present_wins:
  assumes "\<not> has_exif_tag data ''Exif.Photo.LensModel''"
  shows "lens_model_of data =
     (if has_exif_tag data ''Exif.OlympusEq.LensType''
        then or_standard (human_value_at data ''Exif.OlympusEq.LensType'')
      else if has_exif_tag data ''Exif.Minolta.LensID''
        then or_standard (human_value_at data ''Exif.Minolta.LensID'')
      else if has_exif_tag data ''Exif.Sony1.LensID''
        then or_standard (human_value_at data ''Exif.Sony1.LensID'')
      else if has_exif_tag data ''Exif.Panasonic.LensType''
        then or_standard (value_at data ''Exif.Panasonic.LensType'')
      else if has_exif_tag data ''Exif.NikonLd3.LensIDNumber''
        then or_standard (human_value_at data ''Exif.NikonLd3.LensIDNumber'')
      else ''Standard'')"
  using assms by (simp add: lens_model_of_def or_standard_def)

theorem lens_model_last_present_wins_witness:
  "\<not> has_exif_tag sony_only ''Exif.Photo.LensModel''
   \<and> lens_model_of sony_only = ''Sony E 18-200mm F3.5-6.3 OSS''
   \<and> lens_model_of Map.empty = ''Standard''"
proof -
  have a: "\<not> has_exif_tag sony_only ''Exif.Photo.LensModel''"
    by (simp add: has_exif_tag_def sony_only_def)
  have b: "\<not> has_exif_tag Map.empty ''Exif.Photo.LensModel''"
    by (simp add: has_exif_tag_def)
  from lens_model_last_present_wins [OF a] lens_model_last_present_wins [OF b] a
  show ?thesis
    by (simp add: has_exif_tag_def sony_only_def human_value_at_def or_standard_def)
qed

text \<open>
  C4 as stated fails: with the Nikon lens ID and the Olympus lens type both present, the
  result is the Olympus field, not the Nikon one that the claim puts first.
\<close>

theorem nikon_field_overridden:
  "\<not> has_exif_tag nikon_and_olympus ''Exif.Photo.LensModel''
   \<and> has_exif_tag nikon_and_olympus ''Exif.NikonLd3.LensIDNumber''
   \<and> human_value_at nikon_and_olympus ''Exif.NikonLd3.LensIDNumber''
       = Some ''AF-S Nikkor 50mm f/1.8G''
   \<and> lens_model_of nikon_and_olympus = ''Olympus Zuiko Digital 11-22mm F2.8-3.5''
   \<and> lens_model_of nikon_and_olympus \<noteq> ''AF-S Nikkor 50mm f/1.8G''"
  by (simp add: lens_model_of_def has_exif_tag_def nikon_and_olympus_def human_value_at_def
      value_at_def)

subsection \<open>The radial bins\<close>

lemma py_round_range:
  assumes "0 \<le> q" and "q \<le> of_int n"
  shows "0 \<le> py_round q \<and> py_round q \<le> n"
proof -
  let ?f = "\<lfloor>q\<rfloor>"
  have f0: "0 \<le> ?f" using assms(1) by simp
  have fn: "?f \<le> n" using assms(2) by (simp add: floor_le_iff)
  show ?thesis
  proof (cases "?f = n")
    case True
    then have "q - of_int ?f \<le> 0" using assms(2) by simp
    then have "q - of_int ?f < 1 / 2" by linarith
    then show ?thesis using True f0 by (simp add: py_round_def Let_def)
  next
    case False
    then have "?f + 1 \<le> n" using fn by linarith
    then show ?thesis using f0 fn by (auto simp: py_round_def Let_def)
  qed
qed

lemma bin_index_range:
  assumes "0 \<le> r" and "r \<le> 1"
  shows "0 \<le> bin_index r \<and> bin_index r < int number_of_bins"
proof -
  have "0 \<le> r * 15" "r * 15 \<le> of_int 15" using assms by simp_all
  from py_round_range [OF this] show ?thesis
    by (simp add: bin_index_def number_of_bins_def maximal_radius_def)
qed

lemma append_at_in_range:
  "0 \<le> i \<Longrightarrow> i < int (length bins)
   \<Longrightarrow> append_at bins i v = Inr (bins[nat i := bins ! nat i @ [v]])"
  by (simp add: append_at_def Let_def)

lemma fill_bins_members:
  assumes "\<And>s. s \<in> set samples \<Longrightarrow> 0 \<le> fst s \<and> fst s \<le> 1"
    and "length bins = number_of_bins"
  shows "fill_bins samples bins
         = Inr (map (\<lambda>i. bins ! i @ map snd (filter (\<lambda>s. bin_index (fst s) = int i) samples))
                  [0..<number_of_bins])"
  using assms
proof (induction samples arbitrary: bins)
  case Nil
  have "map (\<lambda>i. bins ! i) [0..<length bins] = bins" by (rule map_nth)
  then show ?case using Nil(2) by simp
next
  case (Cons s samples)
  obtain r v where s: "s = (r, v)" by (cases s)
  have r: "0 \<le> r \<and> r \<le> 1" using Cons.prems(1) [of s] s by simp
  let ?k = "nat (bin_index r)"
  let ?bins = "bins[?k := bins ! ?k @ [v]]"
  have k: "0 \<le> bin_index r" "bin_index r < int (length bins)"
    using bin_index_range r Cons.prems(2) by simp_all
  have a: "append_at bins (bin_index r) v = Inr ?bins"
    by (rule append_at_in_range [OF k])
  have len: "length ?bins = number_of_bins" using Cons.prems(2) by simp
  have ih: "fill_bins samples ?bins
         = Inr (map (\<lambda>i. ?bins ! i @ map snd (filter (\<lambda>s. bin_index (fst s) = int i) samples))
                  [0..<number_of_bins])"
    by (rule Cons.IH [OF _ len]) (use Cons.prems(1) in simp)
  have "map (\<lambda>i. ?bins ! i @ map snd (filter (\<lambda>s. bin_index (fst s) = int i) samples))
           [0..<number_of_bins]
      = map (\<lambda>i. bins ! i @ map snd (filter (\<lambda>s. bin_index (fst s) = int i) (s # samples)))
           [0..<number_of_bins]"
  proof (rule map_cong [OF refl])
    fix i assume "i \<in> set [0..<number_of_bins]"
    then have i: "i < length bins" using Cons.prems(2) by simp
    show "?bins ! i @ map snd (filter (\<lambda>s. bin_index (fst s) = int i) samples)
        = bins ! i @ map snd (filter (\<lambda>s. bin_index (fst s) = int i) (s # samples))"
    proof (cases "i = ?k")
      case True
      then have "bin_index r = int i" using k by simp
      then show ?thesis using True i s by simp
    next
      case False
      then have "bin_index r \<noteq> int i" using k by auto
      then show ?thesis using False i s by simp
    qed
  qed
  with ih a s show ?case by simp
qed

lemma indicator_sum_list:
  "k < n \<Longrightarrow> (\<Sum>i\<leftarrow>[0..<n]. if k = i then 1 else 0) = (1::nat)"
  by (simp add: interv_sum_list_conv_sum_set_nat)

lemma partition_lengths:
  assumes "\<And>s. s \<in> set xs \<Longrightarrow> f s < n"
  shows "(\<Sum>i\<leftarrow>[0..<n]. length (filter (\<lambda>s. f s = i) xs)) = length xs"
  using assms
proof (induction xs)
  case Nil
  then show ?case by simp
next
  case (Cons x xs)
  have "(\<Sum>i\<leftarrow>[0..<n]. length (filter (\<lambda>s. f s = i) (x # xs)))
      = (\<Sum>i\<leftarrow>[0..<n]. (if f x = i then 1 else 0) + length (filter (\<lambda>s. f s = i) xs))"
    by (rule arg_cong [where f = sum_list]) simp
  also have "\<dots> = (\<Sum>i\<leftarrow>[0..<n]. if f x = i then 1 else 0)
                  + (\<Sum>i\<leftarrow>[0..<n]. length (filter (\<lambda>s. f s = i) xs))"
    by (rule sum_list_addf)
  also have "\<dots> = 1 + length xs"
    using Cons.IH Cons.prems indicator_sum_list [of "f x" n] by simp
  finally show ?case by simp
qed

lemma filter_length_insort:
  "length (filter P (insort x xs)) = length (filter P (x # xs))"
  by (induction xs) auto

lemma filter_length_sort:
  "length (filter P (sort xs)) = length (filter P xs)"
  by (induction xs) (simp_all add: filter_length_insort)

lemma count_prefix:
  assumes "k \<le> length ys" and "\<And>i. i < k \<Longrightarrow> P (ys ! i)"
  shows "k \<le> length (filter P ys)"
proof -
  have "filter P (take k ys) = take k ys"
    unfolding filter_id_conv using assms by (auto simp: in_set_conv_nth)
  then have "length (filter P (take k ys)) = k" using assms(1) by simp
  moreover have "filter P ys = filter P (take k ys) @ filter P (drop k ys)"
    by (metis append_take_drop_id filter_append)
  ultimately show ?thesis by simp
qed

lemma count_suffix:
  assumes "j \<le> length ys" and "\<And>i. j \<le> i \<Longrightarrow> i < length ys \<Longrightarrow> P (ys ! i)"
  shows "length ys - j \<le> length (filter P ys)"
proof -
  have "filter P (drop j ys) = drop j ys"
    unfolding filter_id_conv using assms by (auto simp: in_set_conv_nth)
  then have "length (filter P (drop j ys)) = length ys - j" by simp
  moreover have "filter P ys = filter P (take j ys) @ filter P (drop j ys)"
    by (metis append_take_drop_id filter_append)
  ultimately show ?thesis by simp
qed

lemma np_median_is_median:
  assumes "xs \<noteq> []"
  shows "\<exists>m. np_median xs = Some m
           \<and> length xs \<le> 2 * length (filter (\<lambda>x. x \<le> m) xs)
           \<and> length xs \<le> 2 * length (filter (\<lambda>x. m \<le> x) xs)"
proof -
  let ?ys = "sort xs"
  let ?n = "length ?ys"
  have n: "?n = length xs" "0 < ?n" using assms by simp_all
  have srt: "sorted ?ys" by simp
  have ne: "?ys \<noteq> []" using assms by (metis length_sort length_0_conv)
  show ?thesis
  proof (cases "odd ?n")
    case True
    let ?m = "?ys ! (?n div 2)"
    have m: "np_median xs = Some ?m" using True ne by (simp add: np_median_def Let_def)
    have lo: "?n div 2 + 1 \<le> length (filter (\<lambda>x. x \<le> ?m) ?ys)"
    proof (rule count_prefix)
      show "?n div 2 + 1 \<le> ?n" using n True by presburger
      fix i assume "i < ?n div 2 + 1"
      then show "?ys ! i \<le> ?m" using srt n by (intro sorted_nth_mono) auto
    qed
    have hi: "?n - ?n div 2 \<le> length (filter (\<lambda>x. ?m \<le> x) ?ys)"
    proof (rule count_suffix)
      show "?n div 2 \<le> ?n" by simp
      fix i assume "?n div 2 \<le> i" "i < ?n"
      then show "?m \<le> ?ys ! i" using srt by (intro sorted_nth_mono) auto
    qed
    have "length xs \<le> 2 * length (filter (\<lambda>x. x \<le> ?m) xs)"
      using lo n unfolding filter_length_sort by linarith
    moreover have "length xs \<le> 2 * length (filter (\<lambda>x. ?m \<le> x) xs)"
      using hi n unfolding filter_length_sort by linarith
    ultimately show ?thesis using m by blast
  next
    case False
    then have ev: "even ?n" by simp
    then have n2: "2 \<le> ?n" "?n div 2 - 1 < ?n div 2" "?n div 2 < ?n" "2 * (?n div 2) = ?n"
      using n by presburger+
    let ?a = "?ys ! (?n div 2 - 1)"
    let ?b = "?ys ! (?n div 2)"
    let ?m = "(?a + ?b) / 2"
    have m: "np_median xs = Some ?m" using ev ne by (simp add: np_median_def Let_def)
    have ab: "?a \<le> ?b" using srt n2 by (intro sorted_nth_mono) auto
    then have am: "?a \<le> ?m" and mb: "?m \<le> ?b" by simp_all
    have lo: "?n div 2 \<le> length (filter (\<lambda>x. x \<le> ?m) ?ys)"
    proof (rule count_prefix)
      show "?n div 2 \<le> ?n" by simp
      fix i assume "i < ?n div 2"
      then have "?ys ! i \<le> ?a" using srt n2 by (intro sorted_nth_mono) auto
      then show "?ys ! i \<le> ?m" using am by linarith
    qed
    have hi: "?n - ?n div 2 \<le> length (filter (\<lambda>x. ?m \<le> x) ?ys)"
    proof (rule count_suffix)
      show "?n div 2 \<le> ?n" by simp
      fix i assume "?n div 2 \<le> i" "i < ?n"
      then have "?b \<le> ?ys ! i" using srt by (intro sorted_nth_mono) auto
      then show "?m \<le> ?ys ! i" using mb by linarith
    qed
    have "length xs \<le> 2 * length (filter (\<lambda>x. x \<le> ?m) xs)"
      using lo n n2 unfolding filter_length_sort by linarith
    moreover have "length xs \<le> 2 * length (filter (\<lambda>x. ?m \<le> x) xs)"
      using hi n n2 unfolding filter_length_sort by linarith
    ultimately show ?thesis using m by blast
  qed
qed

text \<open>
  C7.  For samples whose radii all lie in [0, 1], the binning loop raises nothing and
  leaves 16 bins; bin \<open>i\<close> holds, in their order, the intensities of the samples with
  \<open>round(radius * 15) = i\<close>; the sizes of the bins add up to the number of samples; the
  16 pairs written pair the radius \<open>i / 15\<close> with \<open>np.median\<close> of bin \<open>i\<close>; and for a
  bin that is not empty that value is a median: at least half of the members are at most
  it and at least half are at least it.  (The median of an empty bin is NaN.)
\<close>

theorem radial_binning:
  assumes "\<forall>s\<in>set samples. 0 \<le> fst s \<and> fst s \<le> 1"
  shows "\<exists>bins. fill_bins samples (replicate number_of_bins []) = Inr bins
           \<and> length bins = 16
           \<and> (\<forall>i<16. bins ! i
                  = map snd (filter (\<lambda>s. py_round (fst s * 15) = int i) samples))
           \<and> sum_list (map length bins) = length samples
           \<and> binned samples
               = Inr (map (\<lambda>i. (of_nat i / 15, np_median (bins ! i))) [0..<16])
           \<and> (\<forall>i<16. bins ! i \<noteq> [] \<longrightarrow>
                 (\<exists>m. np_median (bins ! i) = Some m
                    \<and> length (bins ! i) \<le> 2 * length (filter (\<lambda>x. x \<le> m) (bins ! i))
                    \<and> length (bins ! i) \<le> 2 * length (filter (\<lambda>x. m \<le> x) (bins ! i))))"
proof -
  let ?member = "\<lambda>i. map snd (filter (\<lambda>s. bin_index (fst s) = int i) samples)"
  let ?bins = "map ?member [0..<number_of_bins]"
  have rng: "\<And>s. s \<in> set samples \<Longrightarrow> 0 \<le> fst s \<and> fst s \<le> 1"
    using assms by blast
  have bi: "0 \<le> bin_index (fst s) \<and> bin_index (fst s) < int number_of_bins"
    if "s \<in> set samples" for s
    using bin_index_range [of "fst s"] rng [OF that] by simp
  have "fill_bins samples (replicate number_of_bins [])
        = Inr (map (\<lambda>i. replicate number_of_bins [] ! i @ ?member i) [0..<number_of_bins])"
    by (rule fill_bins_members [OF rng]) simp_all
  also have "map (\<lambda>i. replicate number_of_bins [] ! i @ ?member i) [0..<number_of_bins] = ?bins"
    by (rule map_cong [OF refl]) simp
  finally have fill: "fill_bins samples (replicate number_of_bins []) = Inr ?bins" .
  have len: "length ?bins = 16" by (simp add: number_of_bins_def)
  have idx: "bin_index r = py_round (r * 15)" for r
    by (simp add: bin_index_def number_of_bins_def maximal_radius_def)
  have nth: "?bins ! i = map snd (filter (\<lambda>s. py_round (fst s * 15) = int i) samples)"
    if "i < 16" for i
    using that by (simp add: number_of_bins_def idx)
  have "sum_list (map length ?bins)
        = (\<Sum>i\<leftarrow>[0..<number_of_bins].
             length (filter (\<lambda>s. nat (bin_index (fst s)) = i) samples))"
  proof -
    have "length (?member i) = length (filter (\<lambda>s. nat (bin_index (fst s)) = i) samples)" for i
    proof -
      have "filter (\<lambda>s. bin_index (fst s) = int i) samples
            = filter (\<lambda>s. nat (bin_index (fst s)) = i) samples"
        by (rule filter_cong [OF refl]) (use bi in force)
      then show ?thesis by simp
    qed
    then show ?thesis by (simp add: comp_def)
  qed
  also have "\<dots> = length samples"
  proof (rule partition_lengths)
    fix s assume "s \<in> set samples"
    from bi [OF this] show "nat (bin_index (fst s)) < number_of_bins" by linarith
  qed
  finally have total: "sum_list (map length ?bins) = length samples" .
  have pairs: "binned samples
               = Inr (map (\<lambda>i. (of_nat i / 15, np_median (?bins ! i))) [0..<16])"
  proof -
    have "zip (map (\<lambda>i. of_nat i / (of_nat number_of_bins - 1) * maximal_radius)
                 [0..<number_of_bins]) (map np_median ?bins)
          = map (\<lambda>i. (of_nat i / 15, np_median (?bins ! i))) [0..<16]"
      by (rule nth_equalityI) (simp_all add: number_of_bins_def maximal_radius_def)
    then show ?thesis by (simp add: binned_def bind_def fill)
  qed
  have med: "\<exists>m. np_median (?bins ! i) = Some m
                    \<and> length (?bins ! i) \<le> 2 * length (filter (\<lambda>x. x \<le> m) (?bins ! i))
                    \<and> length (?bins ! i) \<le> 2 * length (filter (\<lambda>x. m \<le> x) (?bins ! i))"
    if "?bins ! i \<noteq> []" for i
    by (rule np_median_is_median [OF that])
  from fill len nth total pairs med show ?thesis by blast
qed

theorem radial_binning_witness:
  "list_all (\<lambda>s. 0 \<le> fst s \<and> fst s \<le> 1) six_samples
   \<and> (\<exists>bins. fill_bins six_samples (replicate number_of_bins []) = Inr bins
         \<and> length bins = 16
         \<and> sum_list (map length bins) = 6
         \<and> bins ! 0 = [5, 8, 10] \<and> bins ! 8 = [3, 4] \<and> bins ! 15 = [7]
         \<and> np_median (bins ! 0) = Some 8 \<and> np_median (bins ! 8) = Some (7 / 2))"
proof -
  have h: "\<forall>s\<in>set six_samples. 0 \<le> fst s \<and> fst s \<le> 1"
    by (simp add: six_samples_def)
  have r: "py_round 0 = 0" "py_round 15 = 15" "py_round (15 / 2) = 8" "py_round 8 = 8"
    "py_round (1 / 2) = 0"
    by code_simp+
  from radial_binning [OF h] obtain bins where
    b: "fill_bins six_samples (replicate number_of_bins []) = Inr bins" "length bins = 16"
      "sum_list (map length bins) = length six_samples"
    and n: "\<forall>i<16. bins ! i
                  = map snd (filter (\<lambda>s. py_round (fst s * 15) = int i) six_samples)"
    by blast
  from n have "bins ! 0 = [5, 8, 10]" "bins ! 8 = [3, 4]" "bins ! 15 = [7]"
    by (simp_all add: six_samples_def r)
  moreover have "np_median [5, 8, 10] = Some 8" "np_median [3, 4] = Some (7 / 2)"
    by (simp_all add: np_median_def Let_def)
  moreover have "length six_samples = 6" by (simp add: six_samples_def)
  moreover have "list_all (\<lambda>s. 0 \<le> fst s \<and> fst s \<le> 1) six_samples"
    by (simp add: six_samples_def)
  ultimately show ?thesis using b by auto
qed

subsection \<open>The raster decoder\<close>

lemma take_drop_nth:
  "k + n \<le> length xs \<Longrightarrow> take n (drop k xs) = map (\<lambda>i. xs ! (k + i)) [0..<n]"
  by (rule nth_equalityI) simp_all

lemma reshape_nth:
  assumes "length xs = height * width" and "y < height" and "x < width"
  shows "reshape height width xs ! y ! x = xs ! (y * width + x)"
proof -
  have "y * width + width \<le> height * width"
  proof -
    have "Suc y * width \<le> height * width" using assms(2) by (intro mult_le_mono1) simp
    then show ?thesis by simp
  qed
  then have "y * width + x < length xs" using assms(1,3) by linarith
  then show ?thesis using assms(2,3) by (simp add: reshape_def)
qed

lemma frombuffer_nth:
  assumes "offset + count * itemsize \<le> length buf"
  shows "\<exists>shape. frombuffer buf itemsize dt count offset = Inr shape \<and> length shape = count
           \<and> (\<forall>k<count. shape ! k
                 = dt (big_endian (map (\<lambda>i. buf ! (offset + k * itemsize + i)) [0..<itemsize])))"
proof -
  have ok: "\<not> length buf - offset < count * itemsize" using assms by linarith
  have "take itemsize (drop (offset + k * itemsize) buf)
        = map (\<lambda>i. buf ! (offset + k * itemsize + i)) [0..<itemsize]" if "k < count" for k
  proof (rule take_drop_nth)
    have "Suc k * itemsize \<le> count * itemsize" using that by (intro mult_le_mono1) simp
    then show "offset + k * itemsize + itemsize \<le> length buf" using assms by simp
  qed
  then show ?thesis using ok by (simp add: frombuffer_def)
qed

lemma load_pgm_decoded:
  assumes "header_fields buf = Inr (header, width, height, maxval)"
    and "(if maxval = 255 then Inr (1, UInt8)
             else if maxval = 65535 then Inr (2, UInt16)
             else if maxval = 4294967295 then Inr (4, Float32)
             else Inl ValueError) = Inr (itemsize, dt)"
    and "length header + width * height * itemsize \<le> length buf"
  shows "\<exists>rows. load_pgm buf = Inr (width, height, rows) \<and> length rows = height
           \<and> (\<forall>y<height. \<forall>x<width. rows ! y ! x
                 = dt (big_endian (map (\<lambda>i. buf ! (length header + (y * width + x) * itemsize + i))
                                     [0..<itemsize])))"
proof -
  from frombuffer_nth [OF assms(3), of dt] obtain shape where
    s: "frombuffer buf itemsize dt (width * height) (length header) = Inr shape"
      "length shape = width * height"
    and n: "\<forall>k<width * height. shape ! k
             = dt (big_endian (map (\<lambda>i. buf ! (length header + k * itemsize + i)) [0..<itemsize]))"
    by blast
  have l: "load_pgm buf = Inr (width, height, reshape height width shape)"
    using assms(1,2) s(1) unfolding load_pgm_def by (simp add: bind_def)
  have "reshape height width shape ! y ! x
        = dt (big_endian (map (\<lambda>i. buf ! (length header + (y * width + x) * itemsize + i))
                            [0..<itemsize]))"
    if "y < height" "x < width" for y x
  proof -
    have "Suc y * width \<le> height * width" using that(1) by (intro mult_le_mono1) simp
    then have k: "y * width + x < width * height" using that(2) by (simp add: mult.commute)
    have "reshape height width shape ! y ! x = shape ! (y * width + x)"
      by (rule reshape_nth) (use s(2) that in \<open>simp_all add: mult.commute\<close>)
    with n k show ?thesis by simp
  qed
  moreover have "length (reshape height width shape) = height" by (simp add: reshape_def)
  ultimately show ?thesis using l by blast
qed

lemma upt_2: "[0..<2] = [0, 1]" and upt_4: "[0..<4] = [0, 1, 2, 3]"
  by (simp_all add: upt_rec)

lemma big_endian_bytes:
  "big_endian [a] = of_char a"
  "big_endian [a, b] = 256 * of_char a + of_char b"
  "big_endian [a, b, c, d]
   = 16777216 * of_char a + 65536 * of_char b + 256 * of_char c + of_char d"
  by (simp_all add: big_endian_def)

text \<open>
  C3 (as amended).  A buffer that the header pattern does not match gives ValueError.
  For a buffer with a header, a maximal value other than 255, 65535 and 4294967295 gives
  ValueError; with 255 the sample of row \<open>y\<close> and column \<open>x\<close> is the one byte at
  \<open>len(header) + y * width + x\<close>; with 65535 it is the two bytes there, big-endian; with
  4294967295 it is the four bytes there, big-endian, read as a float32.  The three maximal
  values are compared with \<open>==\<close>: the code has no case for a smaller maximal value.
\<close>

theorem load_pgm_by_max_value:
  "(re_match pgm_header buf = None \<longrightarrow> load_pgm buf = Inl ValueError)
   \<and> (header_fields buf = Inr (header, width, height, maxval) \<longrightarrow>
        (maxval \<noteq> 255 \<and> maxval \<noteq> 65535 \<and> maxval \<noteq> 4294967295 \<longrightarrow>
           load_pgm buf = Inl ValueError)
      \<and> (maxval = 255 \<and> length header + width * height \<le> length buf \<longrightarrow>
           (\<exists>rows. load_pgm buf = Inr (width, height, rows) \<and> length rows = height
              \<and> (\<forall>y<height. \<forall>x<width. rows ! y ! x
                    = UInt8 (of_char (buf ! (length header + (y * width + x)))))))
      \<and> (maxval = 65535 \<and> length header + width * height * 2 \<le> length buf \<longrightarrow>
           (\<exists>rows. load_pgm buf = Inr (width, height, rows) \<and> length rows = height
              \<and> (\<forall>y<height. \<forall>x<width. rows ! y ! x
                    = UInt16 (256 * of_char (buf ! (length header + (y * width + x) * 2))
                              + of_char (buf ! (length header + (y * width + x) * 2 + 1))))))
      \<and> (maxval = 4294967295 \<and> length header + width * height * 4 \<le> length buf \<longrightarrow>
           (\<exists>rows. load_pgm buf = Inr (width, height, rows) \<and> length rows = height
              \<and> (\<forall>y<height. \<forall>x<width. rows ! y ! x
                    = Float32 (16777216 * of_char (buf ! (length header + (y * width + x) * 4))
                               + 65536 * of_char (buf ! (length header + (y * width + x) * 4 + 1))
                               + 256 * of_char (buf ! (length header + (y * width + x) * 4 + 2))
                               + of_char (buf ! (length header + (y * width + x) * 4 + 3)))))))"
proof (intro conjI impI)
  assume "re_match pgm_header buf = None"
  then show "load_pgm buf = Inl ValueError"
    by (simp add: load_pgm_def header_fields_def bind_def)
next
  assume "header_fields buf = Inr (header, width, height, maxval)"
    and "maxval \<noteq> 255 \<and> maxval \<noteq> 65535 \<and> maxval \<noteq> 4294967295"
  then show "load_pgm buf = Inl ValueError"
    by (simp add: load_pgm_def bind_def)
next
  assume h: "header_fields buf = Inr (header, width, height, maxval)"
    and m: "maxval = 255 \<and> length header + width * height \<le> length buf"
  from load_pgm_decoded [OF h, of 1 UInt8] m
  show "\<exists>rows. load_pgm buf = Inr (width, height, rows) \<and> length rows = height
              \<and> (\<forall>y<height. \<forall>x<width. rows ! y ! x
                    = UInt8 (of_char (buf ! (length header + (y * width + x)))))"
    by (simp add: big_endian_bytes)
next
  assume h: "header_fields buf = Inr (header, width, height, maxval)"
    and m: "maxval = 65535 \<and> length header + width * height * 2 \<le> length buf"
  from load_pgm_decoded [OF h, of 2 UInt16] m
  show "\<exists>rows. load_pgm buf = Inr (width, height, rows) \<and> length rows = height
              \<and> (\<forall>y<height. \<forall>x<width. rows ! y ! x
                    = UInt16 (256 * of_char (buf ! (length header + (y * width + x) * 2))
                              + of_char (buf ! (length header + (y * width + x) * 2 + 1))))"
    by (simp add: big_endian_bytes upt_2)
next
  assume h: "header_fields buf = Inr (header, width, height, maxval)"
    and m: "maxval = 4294967295 \<and> length header + width * height * 4 \<le> length buf"
  from load_pgm_decoded [OF h, of 4 Float32] m
  show "\<exists>rows. load_pgm buf = Inr (width, height, rows) \<and> length rows = height
              \<and> (\<forall>y<height. \<forall>x<width. rows ! y ! x
                    = Float32 (16777216 * of_char (buf ! (length header + (y * width + x) * 4))
                               + 65536 * of_char (buf ! (length header + (y * width + x) * 4 + 1))
                               + 256 * of_char (buf ! (length header + (y * width + x) * 4 + 2))
                               + of_char (buf ! (length header + (y * width + x) * 4 + 3))))"
    by (simp add: big_endian_bytes upt_4)
qed

lemmas regex_defs = re_match_def plus_def lits_def is_digit_def

lemmas pgm_defs = load_pgm_def header_fields_def pgm_header_def comment_line_def
  int_of_digits_def decimal_def digit_val_def frombuffer_def reshape_def big_endian_def
  bind_def

theorem load_pgm_by_max_value_witness:
  "header_fields pgm_two_bytes
     = Inr (''P5'' @ [CHR 0x0A] @ ''# made by hand'' @ [CHR 0x0A] @ ''2 1'' @ [CHR 0x0A]
              @ ''65535'' @ [CHR 0x0A], 2, 1, 65535)
   \<and> (\<exists>rows. load_pgm pgm_two_bytes = Inr (2, 1, rows)
         \<and> rows ! 0 ! 0 = UInt16 258 \<and> rows ! 0 ! 1 = UInt16 772)"
proof -
  let ?header = "''P5'' @ [CHR 0x0A] @ ''# made by hand'' @ [CHR 0x0A] @ ''2 1'' @ [CHR 0x0A]
              @ ''65535'' @ [CHR 0x0A]"
  have h: "header_fields pgm_two_bytes = Inr (?header, 2, 1, 65535)"
    by (simp add: pgm_two_bytes_def pgm_defs regex_defs)
  have l: "length ?header + 2 * 1 * 2 \<le> length pgm_two_bytes"
    by (simp add: pgm_two_bytes_def)
  from load_pgm_by_max_value [of pgm_two_bytes ?header 2 1 65535] h l
  obtain rows where r: "load_pgm pgm_two_bytes = Inr (2, 1, rows)"
    and n: "\<forall>y<1. \<forall>x<2. rows ! y ! x
              = UInt16 (256 * of_char (pgm_two_bytes ! (length ?header + (y * 2 + x) * 2))
                        + of_char (pgm_two_bytes ! (length ?header + (y * 2 + x) * 2 + 1)))"
    by auto
  from n have "rows ! 0 ! 0 = UInt16 258" "rows ! 0 ! 1 = UInt16 772"
    by (simp_all add: pgm_two_bytes_def)
  with h r show ?thesis by blast
qed

text \<open>
  C3 as stated fails: a well-formed raster with the maximal value 100, which is at most
  255, and one byte per sample is refused with ValueError.
\<close>

theorem max_value_100_refused:
  "header_fields pgm_maxval_100 = Inr (''P5'' @ [CHR 0x0A] @ ''1 1'' @ [CHR 0x0A] @ ''100'' @ [CHR 0x0A], 1, 1, 100)
   \<and> (100 :: nat) \<le> 255
   \<and> length pgm_maxval_100 = length (''P5'' @ [CHR 0x0A] @ ''1 1'' @ [CHR 0x0A] @ ''100'' @ [CHR 0x0A]) + 1 * 1
   \<and> load_pgm pgm_maxval_100 = Inl ValueError"
  by (simp add: pgm_maxval_100_def pgm_defs regex_defs)

subsection \<open>The jobs\<close>

lemma tca_example_groups:
  "\<exists>g. re_match tca_pattern tca_example_line = Some g
        \<and> g 1 = Some ''-0.002'' \<and> g 2 = Some ''0.001'' \<and> g 3 = Some ''0.003''
        \<and> g 4 = Some ''-0.001''"
  by (simp add: tca_example_line_def tca_pattern_def regex_defs)

lemma tca_example_ascii: "is_ascii tca_example_line"
  by (simp add: tca_example_line_def is_ascii_def)

lemma without_percents_plain: "CHR ''%'' \<notin> set v \<Longrightarrow> without_percents v = v"
  by (induction v rule: without_percents.induct) auto

lemma no_key_reference: "CHR ''%'' \<noteq> c \<Longrightarrow> matches key_reference (c # cs, []) = []"
  by (auto simp: key_reference_def lits_def)

lemma without_keys_plain: "CHR ''%'' \<notin> set v \<Longrightarrow> without_keys v = v"
  by (induction v) (simp_all add: no_key_reference)

lemma interpolation_ok_plain: "CHR ''%'' \<notin> set v \<Longrightarrow> interpolation_ok v"
  by (simp add: interpolation_ok_def without_percents_plain without_keys_plain)

lemma tca_config_example:
  assumes "CHR ''%'' \<notin> set (str_float e (focal_length exif))"
    and "g 1 = Some ''-0.002''" "g 2 = Some ''0.001''" "g 3 = Some ''0.003''"
      "g 4 = Some ''-0.001''"
  shows "tca_config e exif complex_tca tca_example_line g
         = Inr (config_text (lens_model exif)
                  [(''focal_length'', str_float e (focal_length exif)),
                   (''complex_tca'', py_bool complex_tca),
                   (''tca'', tca_example_line),
                   (''br'', ''-0.002''), (''vr'', ''0.001''),
                   (''bb'', ''0.003''), (''vb'', ''-0.001'')])"
proof -
  have "interpolation_ok (str_float e (focal_length exif))"
    by (rule interpolation_ok_plain [OF assms(1)])
  moreover have "interpolation_ok (py_bool complex_tca)"
    by (rule interpolation_ok_plain) (simp add: py_bool_def)
  moreover have "interpolation_ok tca_example_line"
    by (rule interpolation_ok_plain) (simp add: tca_example_line_def)
  moreover have "interpolation_ok ''-0.002''" "interpolation_ok ''0.001''"
    "interpolation_ok ''0.003''" "interpolation_ok ''-0.001''"
    by (rule interpolation_ok_plain, simp)+
  ultimately show ?thesis
    using assms(2-) by (simp add: tca_config_def config_section_def group_text_def)
qed

text \<open>
  C5.  When the TCA tool prints the line
  \<open>-r 0.0:-0.002:0.0:0.001 -b 0.0:0.003:0.0:-0.001\<close>, the pattern of tca\_correct
  matches it with br = -0.002, vr = 0.001, bb = 0.003 and vb = -0.001, and tca\_correct
  (run without \<open>--complex-tca\<close>, for an image that has no .tca file yet) writes the
  .tca file whose one section holds these four values under \<open>br\<close>, \<open>vr\<close>, \<open>bb\<close> and
  \<open>vb\<close>, after the focal length, \<open>complex_tca\<close> and the line itself.  The third
  hypothesis holds for every text that \<open>str\<close> gives for a float.
\<close>

theorem tca_example_line_recorded:
  assumes "\<not> path_exists w (fst (splitext input_file) @ ''.tca'')"
    and "program e [''tca_correct'', ''-o'', ''v'', input_file] (files w)
         = (Exit 0 tca_example_line, fs)"
    and "CHR ''%'' \<notin> set (str_float e (focal_length exif))"
  shows "(\<exists>g. re_match tca_pattern tca_example_line = Some g
            \<and> g 1 = Some ''-0.002'' \<and> g 2 = Some ''0.001''
            \<and> g 3 = Some ''0.003'' \<and> g 4 = Some ''-0.001'')
       \<and> tca_correct e input_file original_file exif False w
          = (Inr (),
             w\<lparr>files := fs(fst (splitext input_file) @ ''.tca'' \<mapsto>
                    config_text (lens_model exif)
                      [(''focal_length'', str_float e (focal_length exif)),
                       (''complex_tca'', ''False''),
                       (''tca'', tca_example_line),
                       (''br'', ''-0.002''), (''vr'', ''0.001''),
                       (''bb'', ''0.003''), (''vb'', ''-0.001'')]),
               invoked := invoked w @ [[''tca_correct'', ''-o'', ''v'', input_file]],
               printed := printed w
                            @ [''Running TCA corrections for '' @ input_file @ '' ...'']\<rparr>)"
proof -
  from tca_example_groups obtain g where m: "re_match tca_pattern tca_example_line = Some g"
    and g: "g 1 = Some ''-0.002''" "g 2 = Some ''0.001''" "g 3 = Some ''0.003''"
      "g 4 = Some ''-0.001''"
    by blast
  note c = tca_config_example [OF assms(3) g, of False]
  have "tca_correct e input_file original_file exif False w
          = (Inr (),
             w\<lparr>files := fs(fst (splitext input_file) @ ''.tca'' \<mapsto>
                    config_text (lens_model exif)
                      [(''focal_length'', str_float e (focal_length exif)),
                       (''complex_tca'', ''False''),
                       (''tca'', tca_example_line),
                       (''br'', ''-0.002''), (''vr'', ''0.001''),
                       (''bb'', ''0.003''), (''vb'', ''-0.001'')]),
               invoked := invoked w @ [[''tca_correct'', ''-o'', ''v'', input_file]],
               printed := printed w
                            @ [''Running TCA corrections for '' @ input_file @ '' ...'']\<rparr>)"
    using assms(1,2) m c tca_example_ascii
    by (simp add: tca_correct_def Let_def run_def say_def write_file_def py_bool_def)
  with m g show ?thesis by blast
qed

lemmas path_defs = splitext_def basename_def join_def Let_def

theorem tca_example_line_recorded_witness:
  "\<not> path_exists empty_world (fst (splitext ''tca/exported/a.ppm'') @ ''.tca'')
   \<and> files (snd (tca_correct line_env ''tca/exported/a.ppm'' ''tca/a.ORF''
                     \<lparr>lens_model = ''Lens'', focal_length = 50, aperture = 8\<rparr> False
                     empty_world))
        ''tca/exported/a.tca''
      = Some (config_text ''Lens''
                [(''focal_length'', ''0.0''), (''complex_tca'', ''False''),
                 (''tca'', tca_example_line),
                 (''br'', ''-0.002''), (''vr'', ''0.001''),
                 (''bb'', ''0.003''), (''vb'', ''-0.001'')])"
proof -
  let ?exif = "\<lparr>lens_model = ''Lens'', focal_length = 50, aperture = 8\<rparr>"
  have s: "fst (splitext ''tca/exported/a.ppm'') = ''tca/exported/a''"
    by (simp add: path_defs)
  have a: "\<not> path_exists empty_world (fst (splitext ''tca/exported/a.ppm'') @ ''.tca'')"
    by (simp add: path_exists_def empty_world_def)
  have b: "program line_env [''tca_correct'', ''-o'', ''v'', ''tca/exported/a.ppm'']
             (files empty_world) = (Exit 0 tca_example_line, files empty_world)"
    by (simp add: line_env_def)
  have c: "CHR ''%'' \<notin> set (str_float line_env (focal_length ?exif))"
    by (simp add: line_env_def example_env_def)
  from tca_example_line_recorded [OF a b c, of "''tca/a.ORF''"]
  have "files (snd (tca_correct line_env ''tca/exported/a.ppm'' ''tca/a.ORF'' ?exif False
                     empty_world)) ''tca/exported/a.tca''
        = Some (config_text ''Lens''
                [(''focal_length'', ''0.0''), (''complex_tca'', ''False''),
                 (''tca'', tca_example_line),
                 (''br'', ''-0.002''), (''vr'', ''0.001''),
                 (''bb'', ''0.003''), (''vb'', ''-0.001'')])"
    by (simp add: s line_env_def example_env_def)
  with a show ?thesis by blast
qed

text \<open>
  C6 (as amended).  When the output of the TCA tool is not matched by the pattern,
  tca\_correct prints \<open>Could not find tca correction data\<close> and returns without an
  exception and without writing the .tca file, and the job create\_tca\_correction returns
  \<open>True\<close> as for a success; nothing of another job is touched.  The hypotheses say that
  the job reaches the parse: the metadata were read, the image converted, no .tca file
  exists yet and the tool ended with code 0 and ASCII output.
\<close>

theorem unparsable_tca_output_reported:
  assumes "image_read_exif e (join dir filename) w = (Inr exif, w1)"
    and "convert_raw_for_tca e (join dir filename) sidecar_file
           (Some (join (join dir ''exported'') (fst (splitext filename) @ ''.ppm'')))
           (say (''Processing '' @ join dir filename @ '' ... '') w1) = (Inr ppm, w2)"
    and "\<not> path_exists w2 (fst (splitext ppm) @ ''.tca'')"
    and "program e [''tca_correct'', ''-o'', (if complex_tca then ''bv'' else ''v''), ppm]
           (files w2) = (Exit 0 output, fs)"
    and "is_ascii output" and "re_match tca_pattern output = None"
  shows "tca_correct e ppm (join dir filename) exif complex_tca w2
         = (Inr (),
            w2\<lparr>files := fs,
               invoked := invoked w2
                 @ [[''tca_correct'', ''-o'', (if complex_tca then ''bv'' else ''v''), ppm]],
               printed := printed w2
                 @ [''Running TCA corrections for '' @ ppm @ '' ...'',
                    ''Could not find tca correction data'']\<rparr>)
       \<and> create_tca_correction e exported dir filename sidecar_file complex_tca w
         = (Inr True,
            w2\<lparr>files := fs,
               invoked := invoked w2
                 @ [[''tca_correct'', ''-o'', (if complex_tca then ''bv'' else ''v''), ppm]],
               printed := printed w2
                 @ [''Running TCA corrections for '' @ ppm @ '' ...'',
                    ''Could not find tca correction data'']\<rparr>)"
proof -
  have t: "tca_correct e ppm (join dir filename) exif complex_tca w2
         = (Inr (),
            w2\<lparr>files := fs,
               invoked := invoked w2
                 @ [[''tca_correct'', ''-o'', (if complex_tca then ''bv'' else ''v''), ppm]],
               printed := printed w2
                 @ [''Running TCA corrections for '' @ ppm @ '' ...'',
                    ''Could not find tca correction data'']\<rparr>)"
    using assms(3-6) by (simp add: tca_correct_def Let_def run_def say_def)
  show ?thesis
    using assms(1,2) t by (simp add: create_tca_correction_def Let_def)
qed

lemmas job_defs = create_tca_correction_def create_vignetting_correction_def
  create_distortion_correction_def image_read_exif_def convert_raw_for_tca_def
  convert_raw_for_vignetting_def convert_raw_for_distortion_def convert_ppm_for_vignetting_def
  calculate_vignetting_def tca_correct_def darktable_cli_def run_def say_def write_file_def
  path_exists_def is_ascii_def

theorem unparsable_tca_output_reported_witness:
  "re_match tca_pattern ''no data'' = None
   \<and> create_tca_correction example_env ''tca/exported'' ''tca'' ''a.ORF''
         ''tca/exported/tca.xmp'' True empty_world
     = (Inr True,
        \<lparr>files = Map.empty,
         invoked =
           [[''exiftool'', ''-T'', ''-scalefactor*'', ''tca/a.ORF''],
            [''darktable-cli'', ''tca/a.ORF'', ''tca/exported/tca.xmp'',
             ''tca/exported/a.ppm'', ''--core'', ''--configdir'', ''/tmp/lenscal_x'',
             ''--conf'', ''plugins/lighttable/export/iccprofile=image'',
             ''--conf'', ''plugins/lighttable/export/style=none''],
            [''tca_correct'', ''-o'', ''bv'', ''tca/exported/a.ppm'']],
         printed =
           [''Processing tca/a.ORF ... '',
            ''Running TCA corrections for tca/exported/a.ppm ...'',
            ''Could not find tca correction data'']\<rparr>)"
proof -
  let ?exif = "\<lparr>lens_model = ''Standard'', focal_length = 0, aperture = 0\<rparr>"
  let ?w1 = "\<lparr>files = Map.empty,
              invoked = [[''exiftool'', ''-T'', ''-scalefactor*'', ''tca/a.ORF'']],
              printed = []\<rparr>"
  let ?w2 = "\<lparr>files = Map.empty,
              invoked =
                [[''exiftool'', ''-T'', ''-scalefactor*'', ''tca/a.ORF''],
                 [''darktable-cli'', ''tca/a.ORF'', ''tca/exported/tca.xmp'',
                  ''tca/exported/a.ppm'', ''--core'', ''--configdir'', ''/tmp/lenscal_x'',
                  ''--conf'', ''plugins/lighttable/export/iccprofile=image'',
                  ''--conf'', ''plugins/lighttable/export/style=none'']],
              printed = [''Processing tca/a.ORF ... '']\<rparr>"
  have j: "join ''tca'' ''a.ORF'' = ''tca/a.ORF''"
    "join (join ''tca'' ''exported'') (fst (splitext ''a.ORF'') @ ''.ppm'') = ''tca/exported/a.ppm''"
    "fst (splitext ''tca/exported/a.ppm'') = ''tca/exported/a''"
    by (simp_all add: path_defs)
  have m: "re_match tca_pattern ''no data'' = None"
    by (simp add: tca_pattern_def regex_defs)
  have h1: "image_read_exif example_env (join ''tca'' ''a.ORF'') empty_world = (Inr ?exif, ?w1)"
    by (simp add: j image_read_exif_def run_def example_env_def empty_world_def
        lens_model_of_def has_exif_tag_def Let_def)
  have h2: "convert_raw_for_tca example_env (join ''tca'' ''a.ORF'') ''tca/exported/tca.xmp''
           (Some (join (join ''tca'' ''exported'') (fst (splitext ''a.ORF'') @ ''.ppm'')))
           (say (''Processing '' @ join ''tca'' ''a.ORF'' @ '' ... '') ?w1)
         = (Inr ''tca/exported/a.ppm'', ?w2)"
    by (simp add: j convert_raw_for_tca_def darktable_cli_def run_def say_def path_exists_def
        example_env_def Let_def)
  have h3: "\<not> path_exists ?w2 (fst (splitext ''tca/exported/a.ppm'') @ ''.tca'')"
    by (simp add: path_exists_def)
  have h4: "program example_env
              [''tca_correct'', ''-o'', (if True then ''bv'' else ''v''), ''tca/exported/a.ppm'']
              (files ?w2) = (Exit 0 ''no data'', Map.empty)"
    by (simp add: example_env_def)
  have h5: "is_ascii ''no data''" by (simp add: is_ascii_def)
  from unparsable_tca_output_reported [OF h1 h2 h3 h4 h5 m, of "''tca/exported''"] m
  show ?thesis by simp
qed

text \<open>
  C6 as stated fails: with the tool output \<open>no data\<close>, which the pattern does not match,
  the job does not fail; it returns \<open>True\<close>.
\<close>

theorem unparsable_tca_output_job_succeeds:
  "re_match tca_pattern ''no data'' = None
   \<and> fst (create_tca_correction example_env ''tca/exported'' ''tca'' ''a.ORF''
            ''tca/exported/tca.xmp'' False empty_world) = Inr True"
proof -
  have m: "re_match tca_pattern ''no data'' = None"
    by (simp add: tca_pattern_def regex_defs)
  have "fst (create_tca_correction example_env ''tca/exported'' ''tca'' ''a.ORF''
            ''tca/exported/tca.xmp'' False empty_world) = Inr True"
    by (simp add: job_defs path_defs m example_env_def empty_world_def)
  with m show ?thesis by blast
qed

text \<open>
  C9 (as amended).  A step whose own output file exists runs no program, prints nothing and
  writes nothing, so the state is the same after it: the three conversions of the raw
  image for their output file, the conversion to a grayscale raster for its .pgm file,
  calculate\_vignetting for its .vig record and tca\_correct for its .tca record.  A
  distortion job whose converted image exists therefore changes nothing at all.  A
  vignetting job reads the metadata first, which runs exiftool; when its four outputs
  exist after that, it does nothing more than print its progress line.
\<close>

theorem existing_output_skips_the_step:
  "(path_exists w output_file \<longrightarrow>
      convert_raw_for_distortion e input_file sidecar_file (Some output_file) w
        = (Inr (Some output_file), w)
      \<and> convert_raw_for_tca e input_file sidecar_file (Some output_file) w
        = (Inr output_file, w)
      \<and> convert_raw_for_vignetting e input_file sidecar_file (Some output_file) w
        = (Inr output_file, w))
   \<and> (path_exists w (fst (splitext input_file) @ ''.pgm'') \<longrightarrow>
        convert_ppm_for_vignetting e input_file w
          = (Inr (fst (splitext input_file) @ ''.pgm''), w))
   \<and> (path_exists w (fst (splitext input_file) @ ''.vig'') \<longrightarrow>
        calculate_vignetting e input_file original_file exif distance w = (Inr (), w))
   \<and> (path_exists w (fst (splitext input_file) @ ''.tca'') \<longrightarrow>
        tca_correct e input_file original_file exif complex_tca w = (Inr (), w))
   \<and> (path_exists w (join (join dir ''exported'') (fst (splitext filename) @ ''.tif'')) \<longrightarrow>
        create_distortion_correction e exported dir filename sidecar_file w = (Inr True, w))
   \<and> (image_read_exif e (join dir filename) w = (Inr exif, w1)
        \<and> path_exists w1 (join exported (fst (splitext filename) @ ''.ppm''))
        \<and> path_exists w1
            (fst (splitext (join exported (fst (splitext filename) @ ''.ppm''))) @ ''.pgm'')
        \<and> path_exists w1
            (fst (splitext
               (fst (splitext (join exported (fst (splitext filename) @ ''.ppm''))) @ ''.pgm''))
             @ ''.vig'')
        \<and> path_exists w1 (join exported (fst (splitext filename) @ ''.jpg'')) \<longrightarrow>
        create_vignetting_correction e exported dir filename sidecar_file distance w
          = (Inr True, say (''Processing '' @ join dir filename @ '' ... '') w1))"
  by (simp add: convert_raw_for_distortion_def convert_raw_for_tca_def
      convert_raw_for_vignetting_def convert_ppm_for_vignetting_def calculate_vignetting_def
      tca_correct_def create_distortion_correction_def create_vignetting_correction_def
      Let_def path_exists_def say_def)

theorem existing_output_skips_the_step_witness:
  "path_exists example_world (fst (splitext ''vignetting/exported/a.pgm'') @ ''.vig'')
   \<and> calculate_vignetting example_env ''vignetting/exported/a.pgm'' ''vignetting/a.ORF''
         \<lparr>lens_model = ''Lens'', focal_length = 50, aperture = 8\<rparr> PosInf example_world
       = (Inr (), example_world)
   \<and> path_exists example_world ''vignetting/exported/a.ppm''
   \<and> convert_raw_for_vignetting example_env ''vignetting/exported/a.pgm'' ''x.xmp''
         (Some ''vignetting/exported/a.ppm'') example_world
       = (Inr ''vignetting/exported/a.ppm'', example_world)"
proof -
  have a: "path_exists example_world (fst (splitext ''vignetting/exported/a.pgm'') @ ''.vig'')"
    by (simp add: path_exists_def example_world_def path_defs)
  have b: "path_exists example_world ''vignetting/exported/a.ppm''"
    by (simp add: path_exists_def example_world_def)
  from existing_output_skips_the_step
         [where w = example_world and e = example_env
            and output_file = "''vignetting/exported/a.ppm''"
            and input_file = "''vignetting/exported/a.pgm''"
            and sidecar_file = "''x.xmp''" and original_file = "''vignetting/a.ORF''"
            and exif = "\<lparr>lens_model = ''Lens'', focal_length = 50, aperture = 8\<rparr>"
            and distance = PosInf] a b
  show ?thesis by blast
qed

text \<open>
  C9 as stated fails for the vignetting job: with the .vig record and all other outputs
  in place the job still runs exiftool, and with the .vig record alone it runs exiftool,
  darktable-cli, convert and darktable-cli again.
\<close>

theorem vignetting_job_still_runs_tools:
  "path_exists example_world ''vignetting/exported/a.vig''
   \<and> path_exists example_world ''vignetting/exported/a.ppm''
   \<and> path_exists example_world ''vignetting/exported/a.pgm''
   \<and> path_exists example_world ''vignetting/exported/a.jpg''
   \<and> invoked (snd (create_vignetting_correction example_env ''vignetting/exported''
                      ''vignetting'' ''a.ORF'' ''vignetting/exported/vignetting.xmp'' PosInf
                      example_world))
       = [[''exiftool'', ''-T'', ''-scalefactor*'', ''vignetting/a.ORF'']]
   \<and> path_exists vig_only_world ''vignetting/exported/a.vig''
   \<and> map hd (invoked (snd (create_vignetting_correction example_env ''vignetting/exported''
                              ''vignetting'' ''a.ORF'' ''vignetting/exported/vignetting.xmp''
                              PosInf vig_only_world)))
       = [''exiftool'', ''darktable-cli'', ''convert'', ''darktable-cli'']"
  by (simp add: job_defs path_defs example_env_def example_world_def vig_only_world_def
      lens_model_of_def has_exif_tag_def)

text \<open>
  C10.  The jobs that run\_vignetting submits, for any result of \<open>os.walk\<close>: none for the
  export directory; for the directory \<open>vignetting\<close> itself one job per raw file, with the
  distance infinity; for any other directory one job per raw file with the distance that
  \<open>float\<close> reads from the directory's base name, and none when that name is no number.
  The loops raise nothing and print nothing: a file that is skipped leaves no trace.
\<close>

theorem vignetting_job_distances:
  "vignetting_jobs walk
   = concat (map (\<lambda>(dir, names).
       if dir = export_path then []
       else if dir = ''vignetting''
         then map (\<lambda>filename. (dir, filename, PosInf)) (filter is_raw_file names)
       else (case py_float (basename dir) of
               None \<Rightarrow> []
             | Some distance \<Rightarrow>
                 map (\<lambda>filename. (dir, filename, distance)) (filter is_raw_file names)))
       walk)"
proof -
  have f: "file_jobs dir names
           = (if dir = export_path then []
              else if dir = ''vignetting''
                then map (\<lambda>filename. (dir, filename, PosInf)) (filter is_raw_file names)
              else (case py_float (basename dir) of
                      None \<Rightarrow> []
                    | Some distance \<Rightarrow>
                        map (\<lambda>filename. (dir, filename, distance)) (filter is_raw_file names)))"
    for dir names
    by (induction names) (auto split: option.splits)
  show ?thesis
    by (induction walk) (auto simp: f simp del: file_jobs.simps)
qed

lemma vignetting_jobs_example:
  "vignetting_jobs
     [(''vignetting'', [''a.ORF'', ''notes.txt'']),
      (''vignetting/exported'', [''a.jpg'']),
      (''vignetting/0.5'', [''b.ORF'']),
      (''vignetting/near'', [''c.ORF''])]
   = [(''vignetting'', ''a.ORF'', PosInf), (''vignetting/0.5'', ''b.ORF'', Finite (1 / 2))]"
  by (simp add: is_raw_file_def raw_file_extensions_def upper_def export_path_def path_defs
      float_defs)

end
